theory Spec2Isabelle
  imports Complex_Main "HOL-Library.Word" "HOL-Library.Sublist" "HOL-Library.AList"
begin

section \<open>Python values used by \<open>pipeline/train/data.py\<close>\<close>

text \<open>
  Exceptions are values: every function of the source that can raise returns
  \<open>exn + 'a\<close>, with \<open>Inl\<close> for the raised exception.  \<open>LibraryError\<close> stands for
  whatever an external library call raises (its message is the argument).
\<close>

datatype exn =
    ValueError string
  | RuntimeError string
  | AssertionError string
  | IndexError string
  | ZeroDivisionError string
  | OverflowError string
  | StatisticsError string
  | LibraryError string

fun str_exn :: "exn \<Rightarrow> string" where
  "str_exn (ValueError m) = m"
| "str_exn (RuntimeError m) = m"
| "str_exn (AssertionError m) = m"
| "str_exn (IndexError m) = m"
| "str_exn (ZeroDivisionError m) = m"
| "str_exn (OverflowError m) = m"
| "str_exn (StatisticsError m) = m"
| "str_exn (LibraryError m) = m"

type_synonym bytes = "8 word list"

text \<open>\<open>sub in s\<close> on strings.\<close>

fun py_contains :: "string \<Rightarrow> string \<Rightarrow> bool" where
  "py_contains sub [] = (sub = [])"
| "py_contains sub (c # cs) = (prefix sub (c # cs) \<or> py_contains sub cs)"

text \<open>\<open>s.replace(old, new)\<close>: every occurrence, left to right, without overlap.\<close>

function py_replace :: "string \<Rightarrow> string \<Rightarrow> string \<Rightarrow> string" where
  "py_replace old new [] = (if old = [] then new else [])"
| "py_replace old new (c # cs) =
     (if old = [] then new @ c # py_replace old new cs
      else if prefix old (c # cs) then new @ py_replace old new (drop (length old) (c # cs))
      else c # py_replace old new cs)"
  by pat_completeness auto
termination
  by (relation "measure (\<lambda>(old, new, s). length s)") (auto simp: Suc_diff_le not_less)

text \<open>\<open>s.replace(old, new, 1)\<close>: the first occurrence only.\<close>

fun py_replace_first :: "string \<Rightarrow> string \<Rightarrow> string \<Rightarrow> string" where
  "py_replace_first old new [] = (if old = [] then new else [])"
| "py_replace_first old new (c # cs) =
     (if prefix old (c # cs) then new @ drop (length old) (c # cs)
      else c # py_replace_first old new cs)"

text \<open>\<open>sep.join(xs)\<close>.\<close>

fun py_join :: "string \<Rightarrow> string list \<Rightarrow> string" where
  "py_join sep [] = []"
| "py_join sep [x] = x"
| "py_join sep (x # y # ys) = x @ sep @ py_join sep (y # ys)"

text \<open>
  The position a Python list index denotes: negative indices count from the end, an
  index outside \<open>-len .. len-1\<close> raises \<open>IndexError\<close>.
\<close>

definition py_index :: "'a list \<Rightarrow> int \<Rightarrow> exn + nat" where
  "py_index xs i =
     (let n = int (length xs) in
      if 0 \<le> i \<and> i < n then Inr (nat i)
      else if - n \<le> i \<and> i < 0 then Inr (nat (n + i))
      else Inl (IndexError ''list index out of range''))"

text \<open>\<open>xs.index(x)\<close>: the first position of \<open>x\<close>, \<open>ValueError\<close> when absent.\<close>

fun list_index :: "'a list \<Rightarrow> 'a \<Rightarrow> exn + nat" where
  "list_index [] x = Inl (ValueError ''x is not in list'')"
| "list_index (y # ys) x =
     (if y = x then Inr 0
      else case list_index ys x of Inl e \<Rightarrow> Inl e | Inr k \<Rightarrow> Inr (Suc k))"

section \<open>The error handler and the mapping stage it is passed to\<close>

text \<open>
  \<open>log_and_continue(exn)\<close> returns \<open>True\<close>; the second component is what it logs.
  \<open>repr\<close> is Python's builtin, a parameter.
\<close>

definition log_and_continue :: "(exn \<Rightarrow> string) \<Rightarrow> exn \<Rightarrow> bool \<times> string list" where
  "log_and_continue repr e =
     (if py_contains ''No images in sample'' (str_exn e)
         \<or> py_contains ''Only one image in sample'' (str_exn e)
      then (True, [])
      else (True, [''Handling webdataset error ('' @ repr e @ ''). Ignoring.'']))"

text \<open>
  webdataset's \<open>map(f, handler=...)\<close> stage, as its library source has it: an exception of
  \<open>f\<close> goes to the handler; a true answer skips the sample, a false one ends the stream.
  The result is the samples yielded and everything the handler logged.
\<close>

fun wds_map :: "('a \<Rightarrow> exn + 'b) \<Rightarrow> (exn \<Rightarrow> bool \<times> string list) \<Rightarrow> 'a list \<Rightarrow> 'b list \<times> string list" where
  "wds_map f handler [] = ([], [])"
| "wds_map f handler (x # xs) =
     (case f x of
        Inr y \<Rightarrow> (case wds_map f handler xs of (ys, lg) \<Rightarrow> (y # ys, lg))
      | Inl e \<Rightarrow>
          (case handler e of
             (True, lg0) \<Rightarrow> (case wds_map f handler xs of (ys, lg) \<Rightarrow> (ys, lg0 @ lg))
           | (False, lg0) \<Rightarrow> ([], lg0)))"

section \<open>Tensors\<close>

text \<open>
  A 4-dimensional tensor is the list of its slices along dimension 0; a slice (one image,
  channel by row by column) is a nested list.  Floats appear only as stored values
  (never in arithmetic), so they are rationals.  \<open>shape3\<close> is what \<open>torch.cat\<close> compares
  between slices: the nested lengths.
\<close>

type_synonym tensor3 = "rat list list list"

definition shape3 :: "tensor3 \<Rightarrow> nat list list" where
  "shape3 t = map (map length) t"

definition torch_zeros :: "nat \<Rightarrow> nat \<Rightarrow> nat \<Rightarrow> nat \<Rightarrow> tensor3 list" where
  "torch_zeros n c h w = replicate n (replicate c (replicate h (replicate w 0)))"

text \<open>\<open>torch.cat(ts, dim=0)\<close>: the slices in order; the shapes beyond dimension 0 must agree.\<close>

definition torch_cat :: "tensor3 list list \<Rightarrow> exn + tensor3 list" where
  "torch_cat ts =
     (case concat ts of
        [] \<Rightarrow> Inl (RuntimeError ''torch.cat(): expected a non-empty list of Tensors'')
      | s # rest \<Rightarrow>
          if list_all (\<lambda>t. shape3 t = shape3 s) rest then Inr (s # rest)
          else Inl (RuntimeError ''Sizes of tensors must match except in dimension 0''))"

text \<open>\<open>torchvision\<close>'s horizontal flip: the last dimension reversed.\<close>

definition hflip :: "tensor3 list \<Rightarrow> tensor3 list" where
  "hflip t = map (map (map rev)) t"

section \<open>The interleaved-document assembler\<close>

definition MIN_KB :: nat where
  "MIN_KB = 10"

definition MAX_NUM_IMAGES :: nat where
  "MAX_NUM_IMAGES = 5"

text \<open>One entry of \<open>info["image_info"]\<close>, and the decoded JSON record.\<close>

record sample_image =
  image_base64 :: string
  matched_sim :: rat
  matched_text_index :: int

record info =
  text_list :: "string list"
  image_info :: "sample_image list"

text \<open>
  What the assembler takes from outside the repository: \<open>json.loads\<close>,
  \<open>base64.b64decode\<close>, PIL's \<open>Image.open\<close>, \<open>image.mode\<close>,
  \<open>"transparency" in image.info\<close> and \<open>image.convert\<close>, and the values that
  \<open>torch.rand(1)\<close> (in \<open>RandomHorizontalFlip\<close>) and \<open>random.random()\<close> return at their one
  call.  Library calls that can raise return \<open>exn + 'a\<close>.
\<close>

record 'img runtime =
  json_loads :: "string \<Rightarrow> exn + info"
  b64decode :: "string \<Rightarrow> exn + bytes"
  Image_open :: "bytes \<Rightarrow> exn + 'img"
  image_mode :: "'img \<Rightarrow> string"
  image_has_transparency :: "'img \<Rightarrow> bool"
  image_convert :: "'img \<Rightarrow> string \<Rightarrow> exn + 'img"
  torch_rand :: rat
  random_random :: rat

text \<open>
  The tokenizer collaborator.  \<open>encode side text n\<close> is the call
  \<open>tokenizer(text, max_length=n, truncation=True, padding="max_length")\<close> with
  \<open>padding_side = side\<close>; it returns \<open>input_ids\<close> and \<open>attention_mask\<close>.
\<close>

record tokenizer =
  eos_token :: string
  additional_special_tokens :: "string list"
  additional_special_tokens_ids :: "int list"
  encode :: "string \<Rightarrow> string \<Rightarrow> nat \<Rightarrow> int list \<times> int list"

text \<open>
  \<open>preprocess_image(sample, image_processor)\<close>: \<open>image_processor s\<close> is the slice that
  \<open>image_processor.preprocess(s, return_tensors="pt")["pixel_values"]\<close> holds for the one
  image \<open>s\<close>; the third argument is the value of \<open>torch.rand(1)\<close>.
\<close>

definition preprocess_image :: "'img list \<Rightarrow> ('img \<Rightarrow> tensor3) \<Rightarrow> rat \<Rightarrow> exn + tensor3 list" where
  "preprocess_image sample image_processor u =
     (case torch_cat (map (\<lambda>s. [image_processor s]) sample) of
        Inl e \<Rightarrow> Inl e
      | Inr img \<Rightarrow> Inr (if u < 1 / 2 then hflip img else img))"

text \<open>Lines 310 to 319: open the image, convert a palette image with transparency, then to RGB.\<close>

definition open_rgb :: "'img runtime \<Rightarrow> bytes \<Rightarrow> exn + 'img" where
  "open_rgb rt rawbytes =
     (case Image_open rt rawbytes of
        Inl e \<Rightarrow> Inl e
      | Inr img \<Rightarrow>
          (case (if image_mode rt img = ''P'' \<and> image_has_transparency rt img
                 then (case image_convert rt img ''RGBA'' of
                         Inl (ValueError m) \<Rightarrow> Inr img
                       | Inl e \<Rightarrow> Inl e
                       | Inr converted \<Rightarrow> Inr converted)
                 else Inr img) of
             Inl e \<Rightarrow> Inl e
           | Inr img' \<Rightarrow> image_convert rt img' ''RGB''))"

text \<open>
  The loop of lines 301 to 322 over \<open>info["image_info"]\<close>: the result is the pair
  \<open>(images, sentence_ixs)\<close>.
\<close>

fun collect_images :: "'img runtime \<Rightarrow> rat \<Rightarrow> sample_image list \<Rightarrow> exn + ('img list \<times> int list)" where
  "collect_images rt sim_threshold [] = Inr ([], [])"
| "collect_images rt sim_threshold (sample_image # rest) =
     (case b64decode rt (image_base64 sample_image) of
        Inl e \<Rightarrow> Inl e
      | Inr rawbytes \<Rightarrow>
          if length rawbytes div 1000 \<le> MIN_KB then collect_images rt sim_threshold rest
          else if matched_sim sample_image < sim_threshold then collect_images rt sim_threshold rest
          else (case open_rgb rt rawbytes of
                  Inl e \<Rightarrow> Inl e
                | Inr img \<Rightarrow>
                    (case collect_images rt sim_threshold rest of
                       Inl e \<Rightarrow> Inl e
                     | Inr (images, sentence_ixs) \<Rightarrow>
                         Inr (img # images, matched_text_index sample_image # sentence_ixs))))"

text \<open>The loop of lines 340 and 341: each kept index prefixes its sentence.\<close>

fun mark_sentences :: "string list \<Rightarrow> int list \<Rightarrow> exn + string list" where
  "mark_sentences sentences [] = Inr sentences"
| "mark_sentences sentences (ix # ixs) =
     (case py_index sentences ix of
        Inl e \<Rightarrow> Inl e
      | Inr k \<Rightarrow> mark_sentences (sentences[k := ''<|endofchunk|><image>'' @ sentences ! k]) ixs)"

text \<open>Lines 343 to 347: the text handed to the tokenizer.\<close>

definition interleaved_text :: "string list \<Rightarrow> string \<Rightarrow> string" where
  "interleaved_text sentences eos =
     (let text = py_join '' '' sentences;
          text = py_replace_first ''<|endofchunk|>'' [] text;
          text = py_replace '' <image>'' ''<image>''
                   (py_replace ''<image> '' ''<image>''
                      (py_replace '' <|endofchunk|>'' ''<|endofchunk|>'' text))
      in text @ ''<|endofchunk|>'' @ eos)"

text \<open>
  \<open>tokenizer.additional_special_tokens_ids[tokenizer.additional_special_tokens.index("<image>")]\<close>.
\<close>

definition image_token_id :: "tokenizer \<Rightarrow> exn + int" where
  "image_token_id tok =
     (case list_index (additional_special_tokens tok) ''<image>'' of
        Inl e \<Rightarrow> Inl e
      | Inr k \<Rightarrow>
          if k < length (additional_special_tokens_ids tok)
          then Inr (additional_special_tokens_ids tok ! k)
          else Inl (IndexError ''list index out of range''))"

text \<open>
  \<open>preprocess_interleaved(sample, tokenizer, clip_processor, sim_threshold)\<close>; \<open>sample\<close> is
  \<open>sample[0]\<close>, the JSON text.  The result is the image tensor with \<open>input_ids\<close> and
  \<open>attention_mask\<close>.  The indices \<open>keep_ixs\<close> are within both lists, whose lengths are
  that of \<open>images\<close>.
\<close>

definition preprocess_interleaved ::
  "'img runtime \<Rightarrow> string \<Rightarrow> tokenizer \<Rightarrow> ('img \<Rightarrow> tensor3) \<Rightarrow> rat
     \<Rightarrow> exn + (tensor3 list \<times> int list \<times> int list)" where
  "preprocess_interleaved rt sample tok clip_processor sim_threshold =
     (case json_loads rt sample of
        Inl e \<Rightarrow> Inl e
      | Inr info \<Rightarrow>
     (case collect_images rt sim_threshold (image_info info) of
        Inl e \<Rightarrow> Inl e
      | Inr (images, sentence_ixs) \<Rightarrow>
     if length images = 0 then Inl (ValueError ''No images in sample'')
     else
     (case preprocess_image images clip_processor (torch_rand rt) of
        Inl e \<Rightarrow> Inl e
      | Inr images_tensors \<Rightarrow>
     (let keep_ixs = [0 ..< min (length images_tensors) MAX_NUM_IMAGES];
          images_tensors = map (\<lambda>ix. images_tensors ! ix) keep_ixs;
          sentence_ixs = map (\<lambda>ix. sentence_ixs ! ix) keep_ixs
      in
     (case (if length images_tensors < MAX_NUM_IMAGES
            then torch_cat [images_tensors,
                            torch_zeros (MAX_NUM_IMAGES - length images_tensors) 3 224 224]
            else Inr images_tensors) of
        Inl e \<Rightarrow> Inl e
      | Inr images_tensors \<Rightarrow>
     (case mark_sentences (text_list info) sentence_ixs of
        Inl e \<Rightarrow> Inl e
      | Inr sentences \<Rightarrow>
     (case encode tok ''right'' (interleaved_text sentences (eos_token tok)) 256 of
        (input_ids, attention_mask) \<Rightarrow>
     (case image_token_id tok of
        Inl e \<Rightarrow> Inl e
      | Inr image_id \<Rightarrow>
     (let num_images = length (filter (\<lambda>t. t = image_id) input_ids) in
      if num_images = 0 then Inl (ValueError ''No images in sample'')
      else if num_images = 1 \<and> random_random rt \<le> 1 / 2
      then Inl (ValueError ''Only one image in sample'')
      else Inr (images_tensors, input_ids, attention_mask))))))))))"

text \<open>
  The two guards of the loop, read together: the descriptor is kept when its payload
  decodes and neither \<open>continue\<close> is taken.
\<close>

definition passes_filter :: "'img runtime \<Rightarrow> rat \<Rightarrow> sample_image \<Rightarrow> bool" where
  "passes_filter rt sim_threshold sample_image =
     (case b64decode rt (image_base64 sample_image) of
        Inl e \<Rightarrow> False
      | Inr rawbytes \<Rightarrow>
          \<not> length rawbytes div 1000 \<le> MIN_KB \<and> \<not> matched_sim sample_image < sim_threshold)"

section \<open>Regrouping file records into samples\<close>

text \<open>
  One record of the expanded archive stream: the dictionary with the keys \<open>fname\<close>,
  \<open>data\<close> and \<open>__url__\<close>.
\<close>

record filesample =
  fname :: string
  data :: bytes
  url :: string

text \<open>
  A sample is a Python dictionary from strings to strings or bytes; a dictionary keeps its
  keys in insertion order and assigning to a present key keeps its place, which is
  \<open>AList.update\<close> on an association list.
\<close>

datatype val = Str string | Bytes bytes

type_synonym sample = "(string \<times> val) list"

fun truthy :: "val \<Rightarrow> bool" where
  "truthy (Str s) = (s \<noteq> [])"
| "truthy (Bytes b) = (b \<noteq> [])"

text \<open>
  \<open>valid_sample\<close> of \<open>webdataset.tariterators\<close>: not \<open>None\<close>, at least one key, and
  no true value under \<open>__bad__\<close>.
\<close>

fun valid_sample :: "sample option \<Rightarrow> bool" where
  "valid_sample None = False"
| "valid_sample (Some s) =
     (0 < length s \<and> (case map_of s ''__bad__'' of None \<Rightarrow> True | Some v \<Rightarrow> \<not> truthy v))"

text \<open>
  The loop of \<open>group_by_keys_nothrow\<close> with its local \<open>current_sample\<close>; the result is the
  list of the samples yielded, the final one included.  \<open>keys\<close> answers \<open>None\<close> where the
  source's \<open>keys(fname)\<close> has the prefix \<open>None\<close>.  \<open>str_lower\<close> is Python's \<open>str.lower\<close>,
  which folds every cased letter of Unicode; it is a parameter, the first one.
\<close>

fun group_loop ::
  "(string \<Rightarrow> string) \<Rightarrow> (string \<Rightarrow> (string \<times> string) option) \<Rightarrow> bool \<Rightarrow> string list option
     \<Rightarrow> sample option \<Rightarrow> filesample list \<Rightarrow> sample list" where
  "group_loop str_lower keys lcase sfxs current_sample [] =
     (case current_sample of
        None \<Rightarrow> []
      | Some s \<Rightarrow> if valid_sample (Some s) then [s] else [])"
| "group_loop str_lower keys lcase sfxs current_sample (filesample # rest) =
     (case keys (fname filesample) of
        None \<Rightarrow> group_loop str_lower keys lcase sfxs current_sample rest
      | Some (pfx, sfx0) \<Rightarrow>
          (let sfx = (if lcase then str_lower sfx0 else sfx0);
               fresh = [(''__key__'', Str pfx), (''__url__'', Str (url filesample))];
               store = (\<lambda>s. if (case sfxs of None \<Rightarrow> True | Some allowed \<Rightarrow> sfx \<in> set allowed)
                            then AList.update sfx (Bytes (data filesample)) s else s)
           in case current_sample of
                None \<Rightarrow> group_loop str_lower keys lcase sfxs (Some (store fresh)) rest
              | Some s \<Rightarrow>
                  if map_of s ''__key__'' \<noteq> Some (Str pfx) \<or> map_of s sfx \<noteq> None
                  then (if valid_sample (Some s) then [s] else [])
                         @ group_loop str_lower keys lcase sfxs (Some (store fresh)) rest
                  else group_loop str_lower keys lcase sfxs (Some (store s)) rest))"

definition group_by_keys_nothrow ::
  "(string \<Rightarrow> string) \<Rightarrow> filesample list \<Rightarrow> (string \<Rightarrow> (string \<times> string) option) \<Rightarrow> bool \<Rightarrow> string list option
     \<Rightarrow> sample list" where
  "group_by_keys_nothrow str_lower data_stream keys lcase sfxs =
     group_loop str_lower keys lcase sfxs None data_stream"

text \<open>
  For stating the round trip: the extension a record is stored under, and the sample that
  the records \<open>recs\<close> of one prefix make, in their order.
\<close>

definition stored_suffix :: "(string \<Rightarrow> string) \<Rightarrow> (string \<Rightarrow> (string \<times> string) option) \<Rightarrow> bool \<Rightarrow> filesample \<Rightarrow> string" where
  "stored_suffix str_lower keys lcase r =
     (case keys (fname r) of
        None \<Rightarrow> []
      | Some (pfx, sfx0) \<Rightarrow> if lcase then str_lower sfx0 else sfx0)"

fun sample_of :: "(string \<Rightarrow> string) \<Rightarrow> (string \<Rightarrow> (string \<times> string) option) \<Rightarrow> bool \<Rightarrow> string \<times> filesample list \<Rightarrow> sample" where
  "sample_of str_lower keys lcase (pfx, recs) =
     [(''__key__'', Str pfx), (''__url__'', Str (case recs of [] \<Rightarrow> [] | r # rs \<Rightarrow> url r))]
       @ map (\<lambda>r. (stored_suffix str_lower keys lcase r, Bytes (data r))) recs"

text \<open>
  A group \<open>(pfx, recs)\<close> of records: not empty, every name splits with the prefix \<open>pfx\<close>,
  no stored extension occurs twice or is one of the two keys every sample starts with, and
  the sample the records make is valid.
\<close>

definition well_grouped ::
  "(string \<Rightarrow> string) \<Rightarrow> (string \<Rightarrow> (string \<times> string) option) \<Rightarrow> bool \<Rightarrow> string \<times> filesample list \<Rightarrow> bool" where
  "well_grouped str_lower keys lcase g =
     (snd g \<noteq> []
      \<and> (\<forall>r \<in> set (snd g). \<exists>e. keys (fname r) = Some (fst g, e))
      \<and> distinct (map (stored_suffix str_lower keys lcase) (snd g))
      \<and> (\<forall>r \<in> set (snd g). stored_suffix str_lower keys lcase r \<noteq> ''__key__''
                                \<and> stored_suffix str_lower keys lcase r \<noteq> ''__url__'')
      \<and> valid_sample (Some (sample_of str_lower keys lcase g)))"

section \<open>The epoch store and the deterministic shuffle stage\<close>

text \<open>
  \<open>SharedEpoch\<close> holds a \<open>multiprocessing.Value("i", epoch)\<close>, a signed 32-bit C integer:
  storing wraps around, reading is the signed value.
\<close>

record SharedEpoch =
  shared_epoch :: "32 word"

definition SharedEpoch_init :: "int \<Rightarrow> SharedEpoch" where
  "SharedEpoch_init epoch = \<lparr>shared_epoch = word_of_int epoch\<rparr>"

definition set_value :: "SharedEpoch \<Rightarrow> int \<Rightarrow> SharedEpoch" where
  "set_value self epoch = self\<lparr>shared_epoch := word_of_int epoch\<rparr>"

definition get_value :: "SharedEpoch \<Rightarrow> int" where
  "get_value self = sint (shared_epoch self)"

text \<open>
  What a process sees of PyTorch: the result of \<open>get_worker_info()\<close> (with its \<open>seed\<close>
  and \<open>num_workers\<close>), and the value of webdataset's own \<open>pytorch_worker_seed()\<close>.
\<close>

record worker_info =
  worker_seed :: int
  num_workers :: int

record process =
  get_worker_info :: "worker_info option"
  wds_pytorch_worker_seed :: int

definition pytorch_worker_seed :: "process \<Rightarrow> int \<Rightarrow> int" where
  "pytorch_worker_seed env increment =
     (case get_worker_info env of
        Some worker_info \<Rightarrow>
          (let seed = worker_seed worker_info in
           if increment \<noteq> 0 then seed + increment * max 1 (num_workers worker_info) else seed)
      | None \<Rightarrow> wds_pytorch_worker_seed env)"

text \<open>
  The field \<open>epoch\<close> of a stage is a \<open>SharedEpoch\<close> or a plain integer counter (\<open>-1\<close> by
  default).
\<close>

datatype epoch_field = Shared SharedEpoch | Counter int

record detshuffle2 =
  bufsize :: nat
  initial :: nat
  seed :: int
  epoch :: epoch_field

text \<open>The first lines of \<open>run\<close>: the epoch of this run, and the stage with its counter advanced.\<close>

definition run_epoch :: "detshuffle2 \<Rightarrow> int \<times> detshuffle2" where
  "run_epoch self =
     (case epoch self of
        Shared e \<Rightarrow> (get_value e, self)
      | Counter n \<Rightarrow> (n + 1, self\<lparr>epoch := Counter (n + 1)\<rparr>))"

text \<open>The seed handed to \<open>rng.seed\<close>.\<close>

definition run_seed :: "process \<Rightarrow> detshuffle2 \<Rightarrow> int \<Rightarrow> int" where
  "run_seed env self ep =
     (if seed self < 0 then pytorch_worker_seed env ep else seed self + ep)"

text \<open>
  \<open>run(src)\<close>.  \<open>Random s\<close> is the state of a \<open>random.Random()\<close> after \<open>rng.seed(s)\<close> and
  \<open>shuffle\<close> is webdataset's \<open>_shuffle(src, bufsize, initial, rng)\<close>; both are parameters.
\<close>

definition run ::
  "(int \<Rightarrow> 'rng) \<Rightarrow> ('a list \<Rightarrow> nat \<Rightarrow> nat \<Rightarrow> 'rng \<Rightarrow> 'a list) \<Rightarrow> process \<Rightarrow> detshuffle2
     \<Rightarrow> 'a list \<Rightarrow> 'a list \<times> detshuffle2" where
  "run Random shuffle env self src =
     (case run_epoch self of
        (ep, self') \<Rightarrow>
          (shuffle src (bufsize self) (initial self) (Random (run_seed env self ep)), self'))"

section \<open>Python's true division\<close>

text \<open>
  \<open>a / b\<close> on Python integers is the IEEE binary64 number nearest to the quotient (ties
  to even), \<open>ZeroDivisionError\<close> for \<open>b = 0\<close> and \<open>OverflowError\<close> when the result is
  beyond the largest float.  A float is modelled by the rational it denotes.
  \<open>float_exponent q\<close> is the integer \<open>e\<close> with \<open>2^e \<le> q < 2^(e+1)\<close> for positive \<open>q\<close>, and
  \<open>fl q\<close> rounds \<open>q\<close> to 53 significant bits (fewer below \<open>2^-1022\<close>).
\<close>

definition round_half_even :: "rat \<Rightarrow> int" where
  "round_half_even x =
     (let f = \<lfloor>x\<rfloor>; d = x - of_int f in
      if d < 1 / 2 then f else if 1 / 2 < d then f + 1 else if even f then f else f + 1)"

fun ilog2 :: "nat \<Rightarrow> nat" where
  "ilog2 n = (if n < 2 then 0 else Suc (ilog2 (n div 2)))"

declare ilog2.simps [simp del]

definition float_exponent :: "rat \<Rightarrow> int" where
  "float_exponent q =
     (case quotient_of q of
        (a, b) \<Rightarrow>
          (let e = int (ilog2 (nat a)) - int (ilog2 (nat b)) in
           if 2 powi e \<le> q then e else e - 1))"

definition fl :: "rat \<Rightarrow> rat" where
  "fl q =
     (if q = 0 then 0
      else (let e = max (float_exponent \<bar>q\<bar>) (- 1022); u = 2 powi (e - 52)
            in sgn q * of_int (round_half_even (\<bar>q\<bar> / u)) * u))"

definition py_truediv :: "int \<Rightarrow> int \<Rightarrow> exn + rat" where
  "py_truediv a b =
     (if b = 0 then Inl (ZeroDivisionError ''division by zero'')
      else (let q = fl (of_int a / of_int b) in
            if 2 ^ 1024 \<le> \<bar>q\<bar>
            then Inl (OverflowError ''integer division result too large for a float'')
            else Inr q))"

text \<open>\<open>round_fn = math.floor if floor else math.ceil\<close>, on a float.\<close>

definition round_fn :: "bool \<Rightarrow> rat \<Rightarrow> int" where
  "round_fn floor_flag x = (if floor_flag then \<lfloor>x\<rfloor> else \<lceil>x\<rceil>)"

section \<open>The webdataset constructors\<close>

subsection \<open>Shard sizes\<close>

text \<open>
  What \<open>get_dataset_size\<close> takes from outside: \<open>braceexpand\<close>, the \<open>os.path\<close> functions,
  and the two sidecar files.  \<open>load_sizes f\<close> is \<open>json.load(open(f))\<close> with every value
  already through \<open>int\<close>; \<open>load_len f\<close> is \<open>ast.literal_eval(open(f).read())\<close>.
\<close>

record files =
  braceexpand :: "string \<Rightarrow> string list"
  dirname :: "string \<Rightarrow> string"
  basename :: "string \<Rightarrow> string"
  path_join :: "string \<Rightarrow> string \<Rightarrow> string"
  path_exists :: "string \<Rightarrow> bool"
  load_sizes :: "string \<Rightarrow> exn + (string \<Rightarrow> int option)"
  load_len :: "string \<Rightarrow> exn + int"

definition get_dataset_size :: "files \<Rightarrow> string \<Rightarrow> exn + (int option \<times> nat)" where
  "get_dataset_size fs shards =
     (let shards_list = braceexpand fs shards in
      case shards_list of
        [] \<Rightarrow> Inl (IndexError ''list index out of range'')
      | first # others \<Rightarrow>
          (let dir_path = dirname fs first;
               sizes_filename = path_join fs dir_path ''sizes.json'';
               len_filename = path_join fs dir_path ''__len__'';
               num_shards = length shards_list
           in if path_exists fs sizes_filename
              then (case load_sizes fs sizes_filename of
                      Inl e \<Rightarrow> Inl e
                    | Inr sizes \<Rightarrow>
                        Inr (Some (sum_list
                               (map (\<lambda>shard. case sizes (basename fs shard) of
                                                Some n \<Rightarrow> n
                                              | None \<Rightarrow> 0) shards_list)),
                             num_shards))
              else if path_exists fs len_filename
              then (case load_len fs len_filename of
                      Inl e \<Rightarrow> Inl e
                    | Inr total_size \<Rightarrow> Inr (Some total_size, num_shards))
              else Inr (None, num_shards)))"

subsection \<open>The batch planner\<close>

text \<open>
  Lines 432 to 439 (and their copies in the other two constructors).  The result is
  \<open>(global_batch_size, num_worker_batches, num_batches, num_samples)\<close>.
\<close>

definition plan_batches :: "bool \<Rightarrow> int \<Rightarrow> int \<Rightarrow> int \<Rightarrow> int \<Rightarrow> exn + (int \<times> int \<times> int \<times> int)" where
  "plan_batches floor_flag num_samples batch_size world_size workers =
     (let global_batch_size = batch_size * world_size in
      case py_truediv num_samples global_batch_size of
        Inl e \<Rightarrow> Inl e
      | Inr x \<Rightarrow>
          (let num_batches = round_fn floor_flag x;
               num_workers = max 1 workers
           in case py_truediv num_batches num_workers of
                Inl e \<Rightarrow> Inl e
              | Inr y \<Rightarrow>
                  (let num_worker_batches = round_fn floor_flag y;
                       num_batches = num_worker_batches * num_workers;
                       num_samples = num_batches * global_batch_size
                   in Inr (global_batch_size, num_worker_batches, num_batches, num_samples))))"

subsection \<open>Pipelines\<close>

definition SHARD_SHUFFLE_SIZE :: nat where "SHARD_SHUFFLE_SIZE = 2000"
definition SHARD_SHUFFLE_INITIAL :: nat where "SHARD_SHUFFLE_INITIAL = 500"
definition SAMPLE_SHUFFLE_SIZE :: nat where "SAMPLE_SHUFFLE_SIZE = 5000"
definition SAMPLE_SHUFFLE_INITIAL :: nat where "SAMPLE_SHUFFLE_INITIAL = 1000"

text \<open>
  The stages a constructor puts into its \<open>wds.DataPipeline\<close>, by name and arguments, and
  the loader it returns: the pipeline, the argument of \<open>with_epoch\<close>, and the attributes
  set on the \<open>wds.WebLoader\<close> (\<open>num_batches\<close> and \<open>num_samples\<close> among them).
\<close>

datatype stage =
    ResampledShards2 string bool SharedEpoch
  | SimpleShardList string
  | DetShuffle2 detshuffle2
  | SplitByNode
  | SplitByWorker
  | TarfileToSamplesNothrow
  | Shuffle nat nat
  | Select_filter_no_caption_or_no_image
  | Decode_base64_image
  | Decode_pil
  | ToTuple "string list"
  | Map_preprocess_interleaved rat
  | MapTuple_preprocess_image_text
  | Batched int bool

record WebLoader =
  loader_pipeline :: "stage list"
  loader_with_epoch :: int
  loader_num_workers :: int
  loader_persistent_workers :: bool
  loader_num_batches :: int
  loader_num_samples :: int

record DataInfo =
  dataloader :: WebLoader
  data_shared_epoch :: SharedEpoch

text \<open>The options the three constructors read from \<open>args\<close>.\<close>

record args =
  mmc4_shards :: "string option"
  laion_shards :: "string option"
  cc3m_shards :: "string option"
  dataset_resampled :: "bool option"
  train_num_samples_mmc4 :: "int option"
  train_num_samples_laion :: "int option"
  train_num_samples_cc3m :: "int option"
  mmc4_textsim_threshold :: rat
  args_seed :: int
  batch_size_mmc4 :: int
  batch_size_laion :: int
  batch_size_cc3m :: int
  workers :: int
  world_size :: int

text \<open>\<open>not x\<close> for an optional integer: \<open>None\<close> and \<open>0\<close> are false.\<close>

definition py_not :: "int option \<Rightarrow> bool" where
  "py_not x = (x = None \<or> x = Some 0)"

text \<open>
  The three constructors are the same text but for the shard option, the fallback sample
  count, the batch size and the stages after the sample shuffle; \<open>get_wds_dataset\<close> is that
  text with these four as arguments.  \<open>getattr(args, "dataset_resampled", False)\<close> is
  \<open>False\<close> for an absent attribute.
\<close>

definition get_wds_dataset ::
  "files \<Rightarrow> args \<Rightarrow> string option \<Rightarrow> int option \<Rightarrow> int \<Rightarrow> stage list \<Rightarrow> int \<Rightarrow> bool
     \<Rightarrow> exn + DataInfo" where
  "get_wds_dataset fs args input_shards train_num_samples batch_size final_stages ep floor_flag =
     (case input_shards of
        None \<Rightarrow> Inl (AssertionError [])
      | Some shards \<Rightarrow>
     (let resampled = (case dataset_resampled args of None \<Rightarrow> False | Some b \<Rightarrow> b) in
      case get_dataset_size fs shards of
        Inl e \<Rightarrow> Inl e
      | Inr (found_samples, num_shards) \<Rightarrow>
     (let num_samples = None;
          num_samples = (if py_not num_samples then train_num_samples else num_samples)
      in
      if py_not num_samples
      then Inl (RuntimeError
        (''Currently, number of dataset samples must be specified for training dataset. ''
         @ ''Please specify via `--train-num-samples` if no dataset length info present.''))
      else
     (let shared_epoch = SharedEpoch_init ep;
          pipeline =
            (if resampled then [ResampledShards2 shards True shared_epoch]
             else [SimpleShardList shards])
            @ (if \<not> resampled
               then [DetShuffle2 \<lparr>bufsize = SHARD_SHUFFLE_SIZE, initial = SHARD_SHUFFLE_INITIAL,
                                  seed = args_seed args, epoch = Shared shared_epoch\<rparr>,
                     SplitByNode, SplitByWorker]
               else [])
            @ [TarfileToSamplesNothrow, Shuffle SAMPLE_SHUFFLE_SIZE SAMPLE_SHUFFLE_INITIAL]
            @ final_stages
      in
      if \<not> resampled \<and> \<not> workers args * world_size args \<le> int num_shards
      then Inl (AssertionError ''number of shards must be >= total workers'')
      else
     (case plan_batches floor_flag (case num_samples of Some n \<Rightarrow> n | None \<Rightarrow> 0)
             batch_size (world_size args) (workers args) of
        Inl e \<Rightarrow> Inl e
      | Inr (global_batch_size, num_worker_batches, num_batches, num_samples) \<Rightarrow>
          Inr \<lparr>dataloader =
                 \<lparr>loader_pipeline = pipeline, loader_with_epoch = num_worker_batches,
                  loader_num_workers = workers args, loader_persistent_workers = True,
                  loader_num_batches = num_batches, loader_num_samples = num_samples\<rparr>,
               data_shared_epoch = shared_epoch\<rparr>)))))"

definition get_mmc4_dataset :: "files \<Rightarrow> args \<Rightarrow> int \<Rightarrow> bool \<Rightarrow> exn + DataInfo" where
  "get_mmc4_dataset fs args ep floor_flag =
     get_wds_dataset fs args (mmc4_shards args) (train_num_samples_mmc4 args) (batch_size_mmc4 args)
       [ToTuple [''json''], Map_preprocess_interleaved (mmc4_textsim_threshold args),
        Batched (batch_size_mmc4 args) False]
       ep floor_flag"

definition get_laion_dataset :: "files \<Rightarrow> args \<Rightarrow> int \<Rightarrow> bool \<Rightarrow> exn + DataInfo" where
  "get_laion_dataset fs args ep floor_flag =
     get_wds_dataset fs args (laion_shards args) (train_num_samples_laion args) (batch_size_laion args)
       [Select_filter_no_caption_or_no_image, Decode_base64_image,
        ToTuple [''jpg;png;jpeg'', ''txt''], Batched (batch_size_laion args) False,
        MapTuple_preprocess_image_text]
       ep floor_flag"

definition get_cc3m_dataset :: "files \<Rightarrow> args \<Rightarrow> int \<Rightarrow> bool \<Rightarrow> exn + DataInfo" where
  "get_cc3m_dataset fs args ep floor_flag =
     get_wds_dataset fs args (cc3m_shards args) (train_num_samples_cc3m args) (batch_size_cc3m args)
       [Select_filter_no_caption_or_no_image, Decode_pil,
        ToTuple [''jpg;png;jpeg'', ''txt''], Batched (batch_size_cc3m args) False,
        MapTuple_preprocess_image_text]
       ep floor_flag"

text \<open>
  The three constructors, each with the options it reads: the shard pattern, the fallback
  sample count and the batch size.
\<close>

definition constructors ::
  "((files \<Rightarrow> args \<Rightarrow> int \<Rightarrow> bool \<Rightarrow> exn + DataInfo)
     \<times> (args \<Rightarrow> string option) \<times> (args \<Rightarrow> int option) \<times> (args \<Rightarrow> int)) list" where
  "constructors =
     [(get_mmc4_dataset, mmc4_shards, train_num_samples_mmc4, batch_size_mmc4),
      (get_laion_dataset, laion_shards, train_num_samples_laion, batch_size_laion),
      (get_cc3m_dataset, cc3m_shards, train_num_samples_cc3m, batch_size_cc3m)]"

section \<open>The MIMIC-IT loaders\<close>

text \<open>\<open>s.split(",")\<close>: the pieces between the commas, one piece for a text without comma.\<close>

fun py_split :: "char \<Rightarrow> string \<Rightarrow> string list" where
  "py_split sep [] = [[]]"
| "py_split sep (c # cs) =
     (if c = sep then [] # py_split sep cs
      else (case py_split sep cs of
              [] \<Rightarrow> [[c]]
            | w # ws \<Rightarrow> (c # w) # ws))"

text \<open>
  A sample count is an integer, or after \<open>statistics.median\<close> of an even number of lengths
  a float (modelled by the rational it denotes).
\<close>

datatype number = Int_number int | Float_number rat

fun number_value :: "number \<Rightarrow> rat" where
  "number_value (Int_number i) = of_int i"
| "number_value (Float_number x) = x"

text \<open>
  \<open>statistics.median(data)\<close>: the middle of the sorted data, the mean of the two middle
  values for an even number of them, \<open>StatisticsError\<close> for none.
\<close>

definition statistics_median :: "int list \<Rightarrow> exn + number" where
  "statistics_median xs =
     (let sorted_data = sort xs; n = length sorted_data in
      if n = 0 then Inl (StatisticsError ''no median for empty data'')
      else if n mod 2 = 1 then Inr (Int_number (sorted_data ! (n div 2)))
      else (let i = n div 2 in
            case py_truediv (sorted_data ! (i - 1) + sorted_data ! i) 2 of
              Inl e \<Rightarrow> Inl e
            | Inr x \<Rightarrow> Inr (Float_number x)))"

text \<open>
  \<open>max(xs)\<close> of a list: \<open>ValueError\<close> for the empty list (with the message of
  CPython 3.8; the wording varies between versions of the interpreter).
\<close>

definition py_max :: "int list \<Rightarrow> exn + int" where
  "py_max xs = (if xs = [] then Inl (ValueError ''max() arg is an empty sequence'') else Inr (Max (set xs)))"

text \<open>
  \<open>x / b\<close> for a sample count \<open>x\<close> and an integer \<open>b\<close>: the division of two integers, or of
  a float by the integer converted to a float (\<open>OverflowError\<close> when it is too large).  The
  quotient of a float by a non-zero integer is not larger than the float, so it is finite.
\<close>

definition number_truediv :: "number \<Rightarrow> int \<Rightarrow> exn + rat" where
  "number_truediv x b =
     (case x of
        Int_number a \<Rightarrow> py_truediv a b
      | Float_number y \<Rightarrow>
          (let fb = fl (of_int b) in
           if 2 ^ 1024 \<le> \<bar>fb\<bar> then Inl (OverflowError ''int too large to convert to float'')
           else if b = 0 then Inl (ZeroDivisionError ''float division by zero'')
           else Inr (fl (y / fb))))"

text \<open>
  The options \<open>get_mimicit_dataset\<close> reads from \<open>args\<close>, besides \<open>workers\<close> and
  \<open>world_size\<close>.
\<close>

record mimicit_args = args +
  mimicit_ic_path :: string
  past_mimicit_ic_path :: string
  images_ic_path :: string
  past_images_ic_path :: string
  train_config_ic_path :: string
  past_train_config_ic_path :: string
  val_mimicit_ic_path :: string
  val_images_ic_path :: string
  val_config_ic_path :: string
  mimicit_path :: string
  past_mimicit_path :: string
  images_path :: string
  past_images_path :: string
  train_config_path :: string
  past_train_config_path :: string
  val_mimicit_path :: string
  val_images_path :: string
  val_config_path :: string
  mimicit_text_path :: string
  past_mimicit_text_path :: string
  train_config_text_path :: string
  past_train_config_text_path :: string
  mimicit_vt_path :: string
  past_mimicit_vt_path :: string
  images_vt_path :: string
  past_images_vt_path :: string
  train_num_samples :: int
  val_num_samples :: int
  batch_size :: int
  rank :: int
  distributed_type :: string

text \<open>
  The samplers and the \<open>torch.utils.data.DataLoader\<close>, by the arguments of their calls:
  \<open>RandomSampler ds replacement num_samples\<close>,
  \<open>DistributedProxySampler sampler num_replicas rank\<close>.  \<open>dl_collate_fn\<close> is the dataset
  whose bound method \<open>collate\<close> is passed as \<open>collate_fn\<close>.
\<close>

datatype 'ds sampler =
    RandomSampler 'ds bool int
  | DistributedProxySampler "'ds sampler" int int

record 'ds DataLoader =
  dl_dataset :: 'ds
  dl_sampler :: "'ds sampler"
  dl_batch_size :: int
  dl_num_workers :: int
  dl_pin_memory :: bool
  dl_drop_last :: bool
  dl_collate_fn :: 'ds

text \<open>
  \<open>new.split(",") + past.split(",") if past != "" else new.split(",")\<close>, and the status
  list that goes with it.
\<close>

definition all_paths :: "string \<Rightarrow> string \<Rightarrow> string list" where
  "all_paths new past =
     (if past \<noteq> [] then py_split CHR '','' new @ py_split CHR '','' past
      else py_split CHR '','' new)"

definition status_list :: "string \<Rightarrow> string \<Rightarrow> string list" where
  "status_list new past =
     (if past \<noteq> []
      then replicate (length (py_split CHR '','' new)) ''new''
             @ replicate (length (py_split CHR '','' past)) ''past''
      else replicate (length (py_split CHR '','' new)) ''new'')"

text \<open>
  Lines 651 to 735.  \<open>MimicitDataset paths status\<close> is the constructor call
  \<open>MimicitDataset(args, *paths, status_list=status)\<close>, which may raise; the result is the
  pair \<open>(unified_datasets, val_unified_datasets)\<close>.
\<close>

definition build_datasets ::
  "(string list list \<Rightarrow> string list \<Rightarrow> exn + 'ds) \<Rightarrow> 'm mimicit_args_scheme
     \<Rightarrow> exn + ('ds list \<times> 'ds list)" where
  "build_datasets MimicitDataset a =
     (case (if mimicit_ic_path a \<noteq> []
            then (let ic_status = status_list (mimicit_ic_path a) (past_mimicit_ic_path a) in
                  case MimicitDataset
                         [all_paths (mimicit_ic_path a) (past_mimicit_ic_path a),
                          all_paths (images_ic_path a) (past_images_ic_path a),
                          all_paths (train_config_ic_path a) (past_train_config_ic_path a)]
                         ic_status of
                    Inl e \<Rightarrow> Inl e
                  | Inr unified_dataset \<Rightarrow>
                      if val_mimicit_ic_path a \<noteq> []
                      then (case MimicitDataset
                                   [py_split CHR '','' (val_mimicit_ic_path a),
                                    py_split CHR '','' (val_images_ic_path a),
                                    py_split CHR '','' (val_config_ic_path a)]
                                   ic_status of
                              Inl e \<Rightarrow> Inl e
                            | Inr val_unified_dataset \<Rightarrow>
                                Inr ([unified_dataset], [val_unified_dataset]))
                      else Inr ([unified_dataset], []))
            else Inr ([], [])) of
        Inl e \<Rightarrow> Inl e
      | Inr (unified_datasets, val_unified_datasets) \<Rightarrow>
     (case (if mimicit_path a \<noteq> []
            then (let status = status_list (mimicit_path a) (past_mimicit_path a) in
                  case MimicitDataset
                         [all_paths (mimicit_path a) (past_mimicit_path a),
                          all_paths (images_path a) (past_images_path a),
                          all_paths (train_config_path a) (past_train_config_path a)]
                         status of
                    Inl e \<Rightarrow> Inl e
                  | Inr unified_dataset \<Rightarrow>
                      if val_mimicit_path a \<noteq> []
                      then (case MimicitDataset
                                   [py_split CHR '','' (val_mimicit_path a),
                                    py_split CHR '','' (val_images_path a),
                                    py_split CHR '','' (val_config_path a)]
                                   status of
                              Inl e \<Rightarrow> Inl e
                            | Inr val_unified_dataset \<Rightarrow>
                                Inr (unified_datasets @ [unified_dataset],
                                     val_unified_datasets @ [val_unified_dataset]))
                      else Inr (unified_datasets @ [unified_dataset], val_unified_datasets))
            else Inr (unified_datasets, val_unified_datasets)) of
        Inl e \<Rightarrow> Inl e
      | Inr (unified_datasets, val_unified_datasets) \<Rightarrow>
     (case (if mimicit_text_path a \<noteq> []
            then (case MimicitDataset
                         [all_paths (mimicit_text_path a) (past_mimicit_text_path a),
                          all_paths (train_config_text_path a) (past_train_config_text_path a)]
                         (status_list (mimicit_text_path a) (past_mimicit_text_path a)) of
                    Inl e \<Rightarrow> Inl e
                  | Inr unified_dataset \<Rightarrow> Inr (unified_datasets @ [unified_dataset]))
            else Inr unified_datasets) of
        Inl e \<Rightarrow> Inl e
      | Inr unified_datasets \<Rightarrow>
     (case (if mimicit_vt_path a \<noteq> []
            then (case MimicitDataset
                         [all_paths (mimicit_vt_path a) (past_mimicit_vt_path a),
                          all_paths (images_vt_path a) (past_images_vt_path a)]
                         (status_list (mimicit_vt_path a) (past_mimicit_vt_path a)) of
                    Inl e \<Rightarrow> Inl e
                  | Inr unified_dataset \<Rightarrow> Inr (unified_datasets @ [unified_dataset]))
            else Inr unified_datasets) of
        Inl e \<Rightarrow> Inl e
      | Inr unified_datasets \<Rightarrow> Inr (unified_datasets, val_unified_datasets)))))"

text \<open>
  \<open>get_mimicit_dataset(args, image_processor, tokenizer, epoch, floor)\<close>; \<open>ds_len\<close> is
  \<open>len\<close> of a dataset.  After the loop of lines 763 to 780 the variable \<open>unified_dataset\<close>
  is the last training dataset, and the list is not empty there, its \<open>max\<close> having been
  taken.  The result is the pair \<open>(dataloaders, val_dataloaders)\<close>.
\<close>

definition get_mimicit_dataset ::
  "(string list list \<Rightarrow> string list \<Rightarrow> exn + 'ds) \<Rightarrow> ('ds \<Rightarrow> int) \<Rightarrow> 'm mimicit_args_scheme \<Rightarrow> bool
     \<Rightarrow> exn + ('ds DataLoader list \<times> 'ds DataLoader list)" where
  "get_mimicit_dataset MimicitDataset ds_len a floor_flag =
     (case build_datasets MimicitDataset a of
        Inl e \<Rightarrow> Inl e
      | Inr (unified_datasets, val_unified_datasets) \<Rightarrow>
     (case (if train_num_samples a = - 1 then statistics_median (map ds_len unified_datasets)
            else Inr (Int_number (train_num_samples a))) of
        Inl e \<Rightarrow> Inl e
      | Inr args_train_num_samples \<Rightarrow>
     (case (if val_num_samples a = - 1 then statistics_median (map ds_len val_unified_datasets)
            else Inr (Int_number (val_num_samples a))) of
        Inl e \<Rightarrow> Inl e
      | Inr args_val_num_samples \<Rightarrow>
     (case py_max (map ds_len unified_datasets) of
        Inl e \<Rightarrow> Inl e
      | Inr longest \<Rightarrow>
     if \<not> number_value args_train_num_samples \<le> of_int longest
     then Inl (AssertionError ''your train_num_samples is larger than dataset'')
     else
     (case py_max (map ds_len val_unified_datasets) of
        Inl e \<Rightarrow> Inl e
      | Inr val_longest \<Rightarrow>
     if \<not> number_value args_val_num_samples \<le> of_int val_longest
     then Inl (AssertionError ''your train_num_samples is larger than dataset'')
     else
     (let global_batch_size = batch_size a * world_size a in
      case number_truediv args_train_num_samples global_batch_size of
        Inl e \<Rightarrow> Inl e
      | Inr q \<Rightarrow>
     (case number_truediv args_val_num_samples global_batch_size of
        Inl e \<Rightarrow> Inl e
      | Inr val_q \<Rightarrow>
     (let num_batches = round_fn floor_flag q;
          num_val_batches = round_fn floor_flag val_q;
          num_samples = num_batches * global_batch_size;
          val_num_samples = num_val_batches * global_batch_size;
          distribute = (\<lambda>sampler.
            if distributed_type a = ''DEEPSPEED'' \<or> distributed_type a = ''MULTI_GPU''
            then DistributedProxySampler sampler (world_size a) (rank a) else sampler);
          last_unified_dataset = last unified_datasets
      in Inr
        (map (\<lambda>unified_dataset.
                \<lparr>dl_dataset = unified_dataset,
                 dl_sampler = distribute
                   (if length unified_datasets = 1
                    then RandomSampler unified_dataset False (ds_len unified_dataset)
                    else RandomSampler unified_dataset True num_samples),
                 dl_batch_size = batch_size a, dl_num_workers = workers a,
                 dl_pin_memory = True, dl_drop_last = True,
                 dl_collate_fn = unified_dataset\<rparr>) unified_datasets,
         map (\<lambda>val_unified_dataset.
                \<lparr>dl_dataset = val_unified_dataset,
                 dl_sampler = distribute
                   (if length val_unified_datasets = 1
                    then RandomSampler val_unified_dataset False (ds_len val_unified_dataset)
                    else RandomSampler val_unified_dataset True num_samples),
                 dl_batch_size = batch_size a, dl_num_workers = workers a,
                 dl_pin_memory = True, dl_drop_last = True,
                 dl_collate_fn = last_unified_dataset\<rparr>) val_unified_datasets)))))))))"

section \<open>Example inputs\<close>

text \<open>
  Concrete collaborators for evaluating the definitions: a payload of 500 bytes per
  character of the encoded text, an image identified by its payload's length, an image
  processor whose slices have shape (3, 224, 224), and a tokenizer that returns fixed ids.
\<close>

definition example_runtime :: "info \<Rightarrow> rat \<Rightarrow> rat \<Rightarrow> nat runtime" where
  "example_runtime doc u coin =
     \<lparr>json_loads = (\<lambda>s. Inr doc),
      b64decode = (\<lambda>s. Inr (replicate (length s * 500) 0)),
      Image_open = (\<lambda>b. Inr (length b)),
      image_mode = (\<lambda>i. ''RGB''),
      image_has_transparency = (\<lambda>i. False),
      image_convert = (\<lambda>i m. Inr i),
      torch_rand = u,
      random_random = coin\<rparr>"

definition example_processor :: "nat \<Rightarrow> tensor3" where
  "example_processor i = replicate 3 (replicate 224 (replicate 224 (of_nat i)))"

definition example_tokenizer :: "int list \<Rightarrow> tokenizer" where
  "example_tokenizer ids =
     \<lparr>eos_token = ''</s>'',
      additional_special_tokens = [''<|endofchunk|>'', ''<image>''],
      additional_special_tokens_ids = [32000, 32001],
      encode = (\<lambda>side text n. (ids, map (\<lambda>t. 1) ids))\<rparr>"

definition example_image :: "string \<Rightarrow> int \<Rightarrow> sample_image" where
  "example_image payload ix =
     \<lparr>image_base64 = payload, matched_sim = 1 / 2, matched_text_index = ix\<rparr>"

text \<open>A \<open>keys\<close> function for names of the form base.extension: the split at the first dot.\<close>

definition split_at_dot :: "string \<Rightarrow> (string \<times> string) option" where
  "split_at_dot s =
     (if CHR ''.'' \<in> set s \<and> takeWhile (\<lambda>c. c \<noteq> CHR ''.'') s \<noteq> []
      then Some (takeWhile (\<lambda>c. c \<noteq> CHR ''.'') s, tl (dropWhile (\<lambda>c. c \<noteq> CHR ''.'') s))
      else None)"

text \<open>
  For the examples, whose names are ASCII: \<open>str.lower\<close> on ASCII text, where it replaces
  the letters A to Z and nothing else.
\<close>

definition example_lower_char :: "char \<Rightarrow> char" where
  "example_lower_char c =
     (case map_of (zip ''ABCDEFGHIJKLMNOPQRSTUVWXYZ'' ''abcdefghijklmnopqrstuvwxyz'') c of
        Some l \<Rightarrow> l
      | None \<Rightarrow> c)"

definition example_lower :: "string \<Rightarrow> string" where
  "example_lower s = map example_lower_char s"

text \<open>
  A directory \<open>d\<close> of shards: the pattern \<open>d/{0..1}.tar\<close> expands to two shards, any other
  pattern to itself; \<open>existing\<close> lists the files present; \<open>sizes.json\<close> gives 100 samples
  for \<open>0.tar\<close> and 200 for \<open>1.tar\<close>, and \<open>__len__\<close> reads 7.
\<close>

definition example_files :: "string list \<Rightarrow> files" where
  "example_files existing =
     \<lparr>braceexpand = (\<lambda>s. if s = ''d/{0..1}.tar'' then [''d/0.tar'', ''d/1.tar''] else [s]),
      dirname = (\<lambda>p. takeWhile (\<lambda>c. c \<noteq> CHR ''/'') p),
      basename = (\<lambda>p. drop 1 (dropWhile (\<lambda>c. c \<noteq> CHR ''/'') p)),
      path_join = (\<lambda>a b. a @ ''/'' @ b),
      path_exists = (\<lambda>p. p \<in> set existing),
      load_sizes = (\<lambda>p. Inr (map_of [(''0.tar'', 100), (''1.tar'', 200)])),
      load_len = (\<lambda>p. Inr 7)\<rparr>"

text \<open>
  Options with the same shard pattern, fallback count and batch size for the three
  datasets.
\<close>

definition example_args :: "string option \<Rightarrow> bool option \<Rightarrow> int option \<Rightarrow> int \<Rightarrow> int \<Rightarrow> int \<Rightarrow> args" where
  "example_args shards resampled n bs w ws =
     \<lparr>mmc4_shards = shards, laion_shards = shards, cc3m_shards = shards,
      dataset_resampled = resampled,
      train_num_samples_mmc4 = n, train_num_samples_laion = n, train_num_samples_cc3m = n,
      mmc4_textsim_threshold = 1 / 4, args_seed = 42,
      batch_size_mmc4 = bs, batch_size_laion = bs, batch_size_cc3m = bs,
      workers = w, world_size = ws\<rparr>"

text \<open>
  A dataset is identified by the first of its paths and has as many samples as that path
  has characters; the options name the in-context and the plain image-text datasets with
  their validation paths, the sample counts and the distributed type, with batch size 2 on
  one node.
\<close>

definition example_MimicitDataset :: "string list list \<Rightarrow> string list \<Rightarrow> exn + string" where
  "example_MimicitDataset paths status = Inr (hd (hd paths))"

definition example_len :: "string \<Rightarrow> int" where
  "example_len ds = int (length ds)"

definition example_mimicit_args ::
  "string \<Rightarrow> string \<Rightarrow> string \<Rightarrow> string \<Rightarrow> int \<Rightarrow> int \<Rightarrow> string \<Rightarrow> mimicit_args" where
  "example_mimicit_args ic val_ic plain val_plain n val_n dtype =
     \<lparr>mmc4_shards = None, laion_shards = None, cc3m_shards = None,
      dataset_resampled = None,
      train_num_samples_mmc4 = None, train_num_samples_laion = None, train_num_samples_cc3m = None,
      mmc4_textsim_threshold = 1 / 4, args_seed = 42,
      batch_size_mmc4 = 1, batch_size_laion = 1, batch_size_cc3m = 1,
      workers = 1, world_size = 1,
      mimicit_ic_path = ic, past_mimicit_ic_path = [],
      images_ic_path = ''images_ic'', past_images_ic_path = [],
      train_config_ic_path = ''config_ic'', past_train_config_ic_path = [],
      val_mimicit_ic_path = val_ic, val_images_ic_path = ''val_images_ic'',
      val_config_ic_path = ''val_config_ic'',
      mimicit_path = plain, past_mimicit_path = [],
      images_path = ''images'', past_images_path = [],
      train_config_path = ''config'', past_train_config_path = [],
      val_mimicit_path = val_plain, val_images_path = ''val_images'',
      val_config_path = ''val_config'',
      mimicit_text_path = [], past_mimicit_text_path = [],
      train_config_text_path = [], past_train_config_text_path = [],
      mimicit_vt_path = [], past_mimicit_vt_path = [],
      images_vt_path = [], past_images_vt_path = [],
      train_num_samples = n, val_num_samples = val_n,
      batch_size = 2, rank = 0, distributed_type = dtype\<rparr>"

section \<open>Properties of the interleaved-document assembler\<close>

subsection \<open>The image filter\<close>

lemma collect_images_kept:
  "collect_images rt thr sis = Inr (images, ixs) \<Longrightarrow>
     ixs = map matched_text_index (filter (passes_filter rt thr) sis) \<and> length images = length ixs"
proof (induction sis arbitrary: images ixs)
  case Nil
  then show ?case by simp
next
  case (Cons si sis)
  then show ?case
    by (auto simp: passes_filter_def split: sum.splits if_splits prod.splits)
qed

text \<open>
  The kept images are the kept descriptors' images, opened and converted, in the order of
  the descriptors.
\<close>

lemma collect_images_order:
  "collect_images rt thr sis = Inr (images, ixs) \<Longrightarrow>
     map Inr images
       = map (\<lambda>si. case b64decode rt (image_base64 si) of
                      Inl e \<Rightarrow> Inl e
                    | Inr rawbytes \<Rightarrow> open_rgb rt rawbytes)
           (filter (passes_filter rt thr) sis)"
proof (induction sis arbitrary: images ixs)
  case Nil
  then show ?case by simp
next
  case (Cons si sis)
  then show ?case
    by (auto simp: passes_filter_def split: sum.splits if_splits prod.splits)
qed

lemma collect_images_Nil_iff:
  assumes "collect_images rt thr sis = Inr (images, ixs)"
  shows "images = [] \<longleftrightarrow> filter (passes_filter rt thr) sis = []"
  using collect_images_kept [OF assms] by auto

text \<open>
  The size guard \<open>len(rawbytes) // 1000 <= MIN_KB\<close> keeps a payload from 11000 bytes on.
\<close>

lemma passes_filter_threshold:
  "passes_filter rt thr si \<longleftrightarrow>
     (\<exists>rawbytes. b64decode rt (image_base64 si) = Inr rawbytes
        \<and> 11000 \<le> length rawbytes \<and> thr \<le> matched_sim si)"
  by (auto simp: passes_filter_def MIN_KB_def split: sum.splits)

text \<open>
  C6 (the code at the failing input).  A descriptor whose payload decodes to 10500 bytes,
  which is at least 10 KB, and whose similarity 1/2 is above the threshold 1/4, is skipped
  by the loop: \<open>10500 // 1000 = 10 <= MIN_KB\<close>.  The comment above the guard reads
  "filter to images >= 10KB".
\<close>

theorem size_filter_skips_payload_of_10500_bytes:
  "b64decode (example_runtime \<lparr>text_list = [''a''], image_info = []\<rparr> (3 / 4) (3 / 4))
       (image_base64 (example_image ''xxxxxxxxxxxxxxxxxxxxx'' 0))
     = Inr (replicate 10500 0)
   \<and> (1 / 4 :: rat) \<le> matched_sim (example_image ''xxxxxxxxxxxxxxxxxxxxx'' 0)
   \<and> collect_images (example_runtime \<lparr>text_list = [''a''], image_info = []\<rparr> (3 / 4) (3 / 4)) (1 / 4)
       [example_image ''xxxxxxxxxxxxxxxxxxxxx'' 0]
     = Inr ([], [])"
  by (simp add: example_runtime_def example_image_def MIN_KB_def)

subsection \<open>Tensors and indices\<close>

lemma map_nth_upt_take: "map (\<lambda>i. xs ! i) [0..<min (length xs) k] = take k xs"
  by (rule nth_equalityI) auto

lemma map_nth_upt_le: "k \<le> length xs \<Longrightarrow> map (\<lambda>i. xs ! i) [0..<k] = take k xs"
  by (rule nth_equalityI) auto

lemma map_nth_upt_take2:
  "length ys = length xs \<Longrightarrow> map (\<lambda>i. ys ! i) [0..<min (length xs) k] = take k ys"
  by (rule nth_equalityI) auto

lemma torch_cat_singletons:
  "torch_cat (map (\<lambda>s. [f s]) xs) = Inr ys \<Longrightarrow> ys = map f xs"
  by (auto simp: torch_cat_def split: list.splits if_splits)

lemma preprocess_image_Inr:
  "preprocess_image xs f u = Inr ys \<Longrightarrow> ys = (if u < 1 / 2 then hflip (map f xs) else map f xs)"
  by (auto simp: preprocess_image_def split: sum.splits dest: torch_cat_singletons)

lemma torch_cat_pad:
  "torch_cat [xs, ys] = Inr zs \<Longrightarrow> zs = xs @ ys"
  by (auto simp: torch_cat_def split: list.splits if_splits)

lemma shape3_flip: "shape3 (map (map rev) s) = shape3 s"
  by (simp add: shape3_def comp_def)

lemma torch_cat_same_shape:
  "xs \<noteq> [] \<Longrightarrow> \<forall>x \<in> set xs. shape3 x = sh \<Longrightarrow> torch_cat (map (\<lambda>x. [x]) xs) = Inr xs"
  by (cases xs) (auto simp: torch_cat_def list_all_iff)

lemma preprocess_image_ok:
  assumes "images \<noteq> []" and "\<forall>img \<in> set images. shape3 (proc img) = sh"
  shows "preprocess_image images proc u
           = Inr (if u < 1 / 2 then hflip (map proc images) else map proc images)"
proof -
  have "torch_cat (map (\<lambda>s. [proc s]) images) = Inr (map proc images)"
    using torch_cat_same_shape [of "map proc images" sh] assms by (simp add: comp_def)
  then show ?thesis by (simp add: preprocess_image_def)
qed

lemma shape3_zeros: "\<forall>z \<in> set (torch_zeros k c h w). shape3 z = replicate c (replicate h w)"
  by (simp add: torch_zeros_def shape3_def)

lemma torch_cat_pad_ok:
  assumes "\<forall>x \<in> set xs. shape3 x = replicate c (replicate h w)" and "0 < k"
  shows "torch_cat [xs, torch_zeros k c h w] = Inr (xs @ torch_zeros k c h w)"
proof -
  have all: "\<forall>x \<in> set (xs @ torch_zeros k c h w). shape3 x = replicate c (replicate h w)"
    using assms(1) shape3_zeros [of k c h w] by auto
  have "xs @ torch_zeros k c h w \<noteq> []"
    using assms(2) by (simp add: torch_zeros_def)
  then obtain s rest where "xs @ torch_zeros k c h w = s # rest"
    by (cases "xs @ torch_zeros k c h w") auto
  with all show ?thesis by (auto simp: torch_cat_def list_all_iff)
qed

lemma py_index_ok:
  "- int (length xs) \<le> i \<Longrightarrow> i < int (length xs) \<Longrightarrow> \<exists>k. py_index xs i = Inr k \<and> k < length xs"
  by (auto simp: py_index_def Let_def)

lemma mark_sentences_ok:
  "\<forall>ix \<in> set ixs. - int (length xs) \<le> ix \<and> ix < int (length xs) \<Longrightarrow>
     \<exists>s. mark_sentences xs ixs = Inr s"
proof (induction ixs arbitrary: xs)
  case Nil
  then show ?case by simp
next
  case (Cons ix ixs)
  then obtain k where k: "py_index xs ix = Inr k" "k < length xs"
    using py_index_ok [of xs ix] by auto
  have "\<forall>i \<in> set ixs. - int (length (xs[k := ''<|endofchunk|><image>'' @ xs ! k])) \<le> i
          \<and> i < int (length (xs[k := ''<|endofchunk|><image>'' @ xs ! k]))"
    using Cons.prems by simp
  from Cons.IH [OF this] k show ?case by simp
qed

subsection \<open>The assembler on a well-formed document\<close>

lemma preprocess_interleaved_no_images:
  assumes "json_loads rt sample = Inr info"
    and "collect_images rt thr (image_info info) = Inr ([], ixs)"
  shows "preprocess_interleaved rt sample tok proc thr = Inl (ValueError ''No images in sample'')"
  using assms by (simp add: preprocess_interleaved_def)

lemma preprocess_interleaved_eval:
  assumes info: "json_loads rt sample = Inr info"
    and coll: "collect_images rt thr (image_info info) = Inr (images, ixs)"
    and ne: "images \<noteq> []"
    and shapes: "\<forall>img \<in> set images. shape3 (proc img) = replicate 3 (replicate 224 224)"
    and marks: "mark_sentences (text_list info) (take MAX_NUM_IMAGES ixs) = Inr sentences"
    and tid: "image_token_id tok = Inr image_id"
    and enc: "encode tok ''right'' (interleaved_text sentences (eos_token tok)) 256 = (input_ids, am)"
  shows "preprocess_interleaved rt sample tok proc thr =
     (if length (filter (\<lambda>t. t = image_id) input_ids) = 0
      then Inl (ValueError ''No images in sample'')
      else if length (filter (\<lambda>t. t = image_id) input_ids) = 1 \<and> random_random rt \<le> 1 / 2
      then Inl (ValueError ''Only one image in sample'')
      else Inr (take MAX_NUM_IMAGES
                  (if torch_rand rt < 1 / 2 then hflip (map proc images) else map proc images)
                  @ torch_zeros (MAX_NUM_IMAGES - length images) 3 224 224, input_ids, am))"
proof -
  define shown where
    "shown = (if torch_rand rt < 1 / 2 then hflip (map proc images) else map proc images)"
  have pi: "preprocess_image images proc (torch_rand rt) = Inr shown"
    using preprocess_image_ok [OF ne shapes] by (simp add: shown_def)
  have len: "length shown = length images"
    by (simp add: shown_def hflip_def)
  have len2: "length ixs = length shown"
    using collect_images_kept [OF coll] len by simp
  have sh: "\<forall>x \<in> set (take MAX_NUM_IMAGES shown). shape3 x = replicate 3 (replicate 224 224)"
    using shapes by (auto simp: shown_def hflip_def shape3_flip dest!: in_set_takeD)
  have k1: "map (\<lambda>ix. shown ! ix) [0 ..< min (length shown) MAX_NUM_IMAGES]
              = take MAX_NUM_IMAGES shown"
    by (rule map_nth_upt_take)
  have k2: "map (\<lambda>ix. ixs ! ix) [0 ..< min (length shown) MAX_NUM_IMAGES]
              = take MAX_NUM_IMAGES ixs"
    by (rule map_nth_upt_take2 [OF len2])
  have pad: "(if length (take MAX_NUM_IMAGES shown) < MAX_NUM_IMAGES
            then torch_cat [take MAX_NUM_IMAGES shown,
                            torch_zeros (MAX_NUM_IMAGES - length (take MAX_NUM_IMAGES shown)) 3 224 224]
            else Inr (take MAX_NUM_IMAGES shown))
          = Inr (take MAX_NUM_IMAGES shown @ torch_zeros (MAX_NUM_IMAGES - length images) 3 224 224)"
  proof (cases "length images < MAX_NUM_IMAGES")
    case True
    then have "0 < MAX_NUM_IMAGES - length (take MAX_NUM_IMAGES shown)"
      using len by simp
    from torch_cat_pad_ok [OF sh this] True len show ?thesis
      by (simp add: min_def)
  next
    case False
    then show ?thesis using len by (simp add: torch_zeros_def)
  qed
  show ?thesis
    unfolding preprocess_interleaved_def Let_def info coll sum.case prod.case pi k1 k2 pad marks enc tid
    using ne by (simp add: shown_def)
qed

text \<open>An index outside the text list: the assignment \<open>sentences[ix] = ...\<close> raises.\<close>

lemma preprocess_interleaved_marks_error:
  assumes info: "json_loads rt sample = Inr info"
    and coll: "collect_images rt thr (image_info info) = Inr (images, ixs)"
    and ne: "images \<noteq> []"
    and shapes: "\<forall>img \<in> set images. shape3 (proc img) = replicate 3 (replicate 224 224)"
    and marks: "mark_sentences (text_list info) (take MAX_NUM_IMAGES ixs) = Inl e"
  shows "preprocess_interleaved rt sample tok proc thr = Inl e"
proof -
  define shown where
    "shown = (if torch_rand rt < 1 / 2 then hflip (map proc images) else map proc images)"
  have pi: "preprocess_image images proc (torch_rand rt) = Inr shown"
    using preprocess_image_ok [OF ne shapes] by (simp add: shown_def)
  have len: "length shown = length images"
    by (simp add: shown_def hflip_def)
  have len2: "length ixs = length shown"
    using collect_images_kept [OF coll] len by simp
  have sh: "\<forall>x \<in> set (take MAX_NUM_IMAGES shown). shape3 x = replicate 3 (replicate 224 224)"
    using shapes by (auto simp: shown_def hflip_def shape3_flip dest!: in_set_takeD)
  have k1: "map (\<lambda>ix. shown ! ix) [0 ..< min (length shown) MAX_NUM_IMAGES]
              = take MAX_NUM_IMAGES shown"
    by (rule map_nth_upt_take)
  have k2: "map (\<lambda>ix. ixs ! ix) [0 ..< min (length shown) MAX_NUM_IMAGES]
              = take MAX_NUM_IMAGES ixs"
    by (rule map_nth_upt_take2 [OF len2])
  have pad: "(if length (take MAX_NUM_IMAGES shown) < MAX_NUM_IMAGES
            then torch_cat [take MAX_NUM_IMAGES shown,
                            torch_zeros (MAX_NUM_IMAGES - length (take MAX_NUM_IMAGES shown)) 3 224 224]
            else Inr (take MAX_NUM_IMAGES shown))
          = Inr (take MAX_NUM_IMAGES shown @ torch_zeros (MAX_NUM_IMAGES - length images) 3 224 224)"
  proof (cases "length images < MAX_NUM_IMAGES")
    case True
    then have "0 < MAX_NUM_IMAGES - length (take MAX_NUM_IMAGES shown)"
      using len by simp
    from torch_cat_pad_ok [OF sh this] True len show ?thesis
      by (simp add: min_def)
  next
    case False
    then show ?thesis using len by (simp add: torch_zeros_def)
  qed
  show ?thesis
    unfolding preprocess_interleaved_def Let_def info coll sum.case prod.case pi k1 k2 pad marks
    using ne by simp
qed

subsection \<open>The handler\<close>

lemma log_and_continue_True: "fst (log_and_continue repr e) = True"
  by (simp add: log_and_continue_def)

lemma log_and_continue_silent:
  "log_and_continue repr (ValueError ''No images in sample'') = (True, [])"
  "log_and_continue repr (ValueError ''Only one image in sample'') = (True, [])"
  by (simp_all add: log_and_continue_def)

lemma wds_map_log_and_continue:
  "fst (wds_map f (log_and_continue repr) xs) = map projr (filter (\<lambda>r. \<not> isl r) (map f xs))"
proof (induction xs)
  case Nil
  then show ?case by simp
next
  case (Cons x xs)
  show ?case
  proof (cases "f x")
    case (Inl e)
    obtain lg0 where "log_and_continue repr e = (True, lg0)"
      using log_and_continue_True [of repr e] by (cases "log_and_continue repr e") auto
    with Inl Cons.IH show ?thesis by (auto split: prod.splits)
  next
    case (Inr y)
    with Cons.IH show ?thesis by (auto split: prod.splits)
  qed
qed

subsection \<open>Rejection\<close>

lemma example_processor_shape: "shape3 (example_processor i) = replicate 3 (replicate 224 224)"
  by (simp add: example_processor_def shape3_def)

text \<open>
  C4 (amended).  The document is well-formed: the JSON text decodes to \<open>info\<close>, the loop over its
  image descriptors completes (payloads decode, kept images open) with the kept images
  \<open>images\<close> and their text indices \<open>ixs\<close>, the image processor's slices have shape
  (3, 224, 224), the first five kept indices lie within the text list, and \<open><image>\<close> is one
  of the tokenizer's special tokens.  Then \<open>preprocess_interleaved\<close> raises exactly when no
  descriptor passes the filters, or no \<open><image>\<close> id is among the 256 token ids, or exactly
  one is and the value of \<open>random.random()\<close> is at most 1/2; the first two raise
  "No images in sample", the third "Only one image in sample".  \<open>log_and_continue\<close> returns
  \<open>True\<close> for every exception and logs nothing for these two messages, so a \<open>map\<close> stage
  with this handler yields exactly the samples that were assembled and passes no exception on.
  The theorem speaks of the value drawn, not of its distribution.
\<close>

theorem preprocess_interleaved_rejection:
  assumes info: "json_loads rt sample = Inr info"
    and coll: "collect_images rt thr (image_info info) = Inr (images, ixs)"
    and shapes: "\<forall>img \<in> set images. shape3 (proc img) = replicate 3 (replicate 224 224)"
    and idx: "\<forall>ix \<in> set (take MAX_NUM_IMAGES ixs).
                - int (length (text_list info)) \<le> ix \<and> ix < int (length (text_list info))"
    and tid: "image_token_id tok = Inr image_id"
  shows "\<exists>sentences input_ids am.
           mark_sentences (text_list info) (take MAX_NUM_IMAGES ixs) = Inr sentences \<and>
           encode tok ''right'' (interleaved_text sentences (eos_token tok)) 256 = (input_ids, am) \<and>
           (let kept = filter (passes_filter rt thr) (image_info info);
                num_images = length (filter (\<lambda>t. t = image_id) input_ids);
                result = preprocess_interleaved rt sample tok proc thr
            in (isl result \<longleftrightarrow>
                  kept = [] \<or> num_images = 0 \<or> (num_images = 1 \<and> random_random rt \<le> 1 / 2))
             \<and> (kept = [] \<or> num_images = 0 \<longrightarrow> result = Inl (ValueError ''No images in sample''))
             \<and> (kept \<noteq> [] \<and> num_images = 1 \<and> random_random rt \<le> 1 / 2
                  \<longrightarrow> result = Inl (ValueError ''Only one image in sample'')))
         \<and> (\<forall>e. fst (log_and_continue repr e) = True)
         \<and> log_and_continue repr (ValueError ''No images in sample'') = (True, [])
         \<and> log_and_continue repr (ValueError ''Only one image in sample'') = (True, [])
         \<and> (\<forall>xs. fst (wds_map (\<lambda>s. preprocess_interleaved rt s tok proc thr) (log_and_continue repr) xs)
                  = map projr (filter (\<lambda>r. \<not> isl r)
                      (map (\<lambda>s. preprocess_interleaved rt s tok proc thr) xs)))"
proof -
  obtain sentences where marks:
    "mark_sentences (text_list info) (take MAX_NUM_IMAGES ixs) = Inr sentences"
    using mark_sentences_ok [OF idx] by blast
  obtain input_ids am where enc:
    "encode tok ''right'' (interleaved_text sentences (eos_token tok)) 256 = (input_ids, am)"
    by (cases "encode tok ''right'' (interleaved_text sentences (eos_token tok)) 256") auto
  define num_images where "num_images = length (filter (\<lambda>t. t = image_id) input_ids)"
  define result where "result = preprocess_interleaved rt sample tok proc thr"
  have kept: "filter (passes_filter rt thr) (image_info info) = [] \<longleftrightarrow> images = []"
    using collect_images_Nil_iff [OF coll] by simp
  have body:
    "(isl result \<longleftrightarrow> images = [] \<or> num_images = 0 \<or> (num_images = 1 \<and> random_random rt \<le> 1 / 2))
     \<and> (images = [] \<or> num_images = 0 \<longrightarrow> result = Inl (ValueError ''No images in sample''))
     \<and> (images \<noteq> [] \<and> num_images = 1 \<and> random_random rt \<le> 1 / 2
          \<longrightarrow> result = Inl (ValueError ''Only one image in sample''))"
  proof (cases "images = []")
    case True
    with preprocess_interleaved_no_images [OF info] coll
    have "result = Inl (ValueError ''No images in sample'')"
      by (simp add: result_def)
    with True show ?thesis by simp
  next
    case False
    from preprocess_interleaved_eval [OF info coll False shapes marks tid enc] False
    show ?thesis
      by (simp add: result_def num_images_def)
  qed
  show ?thesis
    using marks enc body kept log_and_continue_True [of repr] log_and_continue_silent [of repr]
      wds_map_log_and_continue [of "\<lambda>s. preprocess_interleaved rt s tok proc thr" repr]
    unfolding Let_def num_images_def result_def
    by (intro conjI exI [of _ sentences] exI [of _ input_ids] exI [of _ am] allI) simp_all
qed



theorem preprocess_interleaved_rejection_witness:
  "preprocess_interleaved
      (example_runtime
         \<lparr>text_list = [''a cat'', ''and''],
          image_info = [example_image ''xx'' 1, example_image ''xxxxxxxxxxxxxxxxxxxxxx'' 0]\<rparr>
         (3 / 4) (1 / 4))
      ''{}'' (example_tokenizer [32001, 7]) example_processor (1 / 4)
    = Inl (ValueError ''Only one image in sample'')
   \<and> fst (wds_map
        (\<lambda>s. preprocess_interleaved
           (example_runtime
              \<lparr>text_list = [''a cat'', ''and''],
               image_info = [example_image ''xx'' 1, example_image ''xxxxxxxxxxxxxxxxxxxxxx'' 0]\<rparr>
              (3 / 4) (1 / 4))
           s (example_tokenizer [32001, 7]) example_processor (1 / 4))
        (log_and_continue (\<lambda>e. ''exn'')) [''{}'', ''{}'']) = []"
proof -
  let ?doc = "\<lparr>text_list = [''a cat'', ''and''],
          image_info = [example_image ''xx'' 1, example_image ''xxxxxxxxxxxxxxxxxxxxxx'' 0]\<rparr>"
  let ?rt = "example_runtime ?doc (3 / 4) (1 / 4)"
  let ?tok = "example_tokenizer [32001, 7]"
  have info: "json_loads ?rt ''{}'' = Inr ?doc"
    by (simp add: example_runtime_def)
  have coll: "collect_images ?rt (1 / 4) (image_info ?doc) = Inr ([11000], [0])"
    by (simp add: example_runtime_def example_image_def MIN_KB_def open_rgb_def)
  have shapes: "\<forall>img \<in> set [11000]. shape3 (example_processor img) = replicate 3 (replicate 224 224)"
    by (simp add: example_processor_shape)
  have idx: "\<forall>ix \<in> set (take MAX_NUM_IMAGES [0]).
                - int (length (text_list ?doc)) \<le> ix \<and> ix < int (length (text_list ?doc))"
    by (simp add: MAX_NUM_IMAGES_def)
  have tid: "image_token_id ?tok = Inr 32001"
    by (simp add: image_token_id_def example_tokenizer_def)
  have kept: "filter (passes_filter ?rt (1 / 4)) (image_info ?doc) \<noteq> []"
    using collect_images_Nil_iff [OF coll] by simp
  have coin: "random_random ?rt \<le> 1 / 2"
    by (simp add: example_runtime_def)
  from preprocess_interleaved_rejection [OF info coll shapes idx tid, of "\<lambda>e. ''exn''"]
  obtain sentences input_ids am where
    e: "encode ?tok ''right'' (interleaved_text sentences (eos_token ?tok)) 256 = (input_ids, am)"
    and one: "filter (passes_filter ?rt (1 / 4)) (image_info ?doc) \<noteq> []
          \<and> length (filter (\<lambda>t. t = 32001) input_ids) = 1 \<and> random_random ?rt \<le> 1 / 2
        \<longrightarrow> preprocess_interleaved ?rt ''{}'' ?tok example_processor (1 / 4)
             = Inl (ValueError ''Only one image in sample'')"
    unfolding Let_def by blast
  from e have "input_ids = [32001, 7]"
    by (auto simp: example_tokenizer_def)
  with one kept coin
  have r: "preprocess_interleaved ?rt ''{}'' ?tok example_processor (1 / 4)
             = Inl (ValueError ''Only one image in sample'')"
    by simp
  from preprocess_interleaved_rejection [OF info coll shapes idx tid, of "\<lambda>e. ''exn''"]
  have "fst (wds_map (\<lambda>s. preprocess_interleaved ?rt s ?tok example_processor (1 / 4))
               (log_and_continue (\<lambda>e. ''exn'')) [''{}'', ''{}''])
          = map projr (filter (\<lambda>r. \<not> isl r)
              (map (\<lambda>s. preprocess_interleaved ?rt s ?tok example_processor (1 / 4)) [''{}'', ''{}'']))"
    by blast
  with r show ?thesis by simp
qed

text \<open>
  The claim as stated speaks of every document.  The document below has one descriptor that
  passes the filters, and the tokenizer returns two \<open><image>\<close> ids for any text, so none of
  the three cases of the claim holds; its matched text index 5 is outside the one-sentence
  text list, and the assembler raises \<open>IndexError\<close> at line 341.  The handler returns
  \<open>True\<close> for it as for every exception, and logs it.
\<close>

theorem preprocess_interleaved_index_error:
  "preprocess_interleaved
      (example_runtime
         \<lparr>text_list = [''a cat''], image_info = [example_image ''xxxxxxxxxxxxxxxxxxxxxx'' 5]\<rparr>
         (3 / 4) (3 / 4))
      ''{}'' (example_tokenizer [32001, 7, 32001]) example_processor (1 / 4)
    = Inl (IndexError ''list index out of range'')
   \<and> length (filter (passes_filter (example_runtime
         \<lparr>text_list = [''a cat''], image_info = [example_image ''xxxxxxxxxxxxxxxxxxxxxx'' 5]\<rparr>
         (3 / 4) (3 / 4)) (1 / 4)) [example_image ''xxxxxxxxxxxxxxxxxxxxxx'' 5]) = 1
   \<and> length (filter (\<lambda>t. t = 32001)
        (fst (encode (example_tokenizer [32001, 7, 32001]) ''right'' ''any text'' 256))) = 2
   \<and> log_and_continue (\<lambda>e. ''IndexError'') (IndexError ''list index out of range'')
        = (True, [''Handling webdataset error (IndexError). Ignoring.''])"
proof -
  let ?doc = "\<lparr>text_list = [''a cat''], image_info = [example_image ''xxxxxxxxxxxxxxxxxxxxxx'' 5]\<rparr>"
  let ?rt = "example_runtime ?doc (3 / 4) (3 / 4)"
  have info: "json_loads ?rt ''{}'' = Inr ?doc"
    by (simp add: example_runtime_def)
  have coll: "collect_images ?rt (1 / 4) (image_info ?doc) = Inr ([11000], [5])"
    by (simp add: example_runtime_def example_image_def MIN_KB_def open_rgb_def)
  have ne: "[11000::nat] \<noteq> []" by simp
  have shapes: "\<forall>img \<in> set [11000]. shape3 (example_processor img) = replicate 3 (replicate 224 224)"
    by (simp add: example_processor_shape)
  have marks: "mark_sentences (text_list ?doc) (take MAX_NUM_IMAGES [5])
                 = Inl (IndexError ''list index out of range'')"
    by (simp add: MAX_NUM_IMAGES_def py_index_def)
  have r: "preprocess_interleaved ?rt ''{}'' (example_tokenizer [32001, 7, 32001]) example_processor (1 / 4)
             = Inl (IndexError ''list index out of range'')"
    using info coll ne shapes marks by (rule preprocess_interleaved_marks_error)
  have k: "length (filter (passes_filter ?rt (1 / 4)) [example_image ''xxxxxxxxxxxxxxxxxxxxxx'' 5]) = 1"
    by (simp add: passes_filter_def example_runtime_def example_image_def MIN_KB_def)
  have t: "length (filter (\<lambda>t. t = 32001)
        (fst (encode (example_tokenizer [32001, 7, 32001]) ''right'' ''any text'' 256))) = 2"
    by (simp add: example_tokenizer_def)
  have l: "log_and_continue (\<lambda>e. ''IndexError'') (IndexError ''list index out of range'')
        = (True, [''Handling webdataset error (IndexError). Ignoring.''])"
    by (simp add: log_and_continue_def)
  from r k t l show ?thesis by simp
qed

subsection \<open>Image slots\<close>

text \<open>
  C5.  When \<open>preprocess_interleaved\<close> returns a sample, \<open>n \<ge> 1\<close> images passed the filters
  and the image tensor has exactly \<open>MAX_NUM_IMAGES = 5\<close> slices: the slices of the first five
  kept images (each flipped or not, as \<open>RandomHorizontalFlip\<close> drew), followed by \<open>5 - n\<close>
  all-zero slices of shape (3, 224, 224).  The kept images \<open>images\<close> are the images of the
  descriptors that pass the filters, decoded, opened and converted to RGB, in the order of
  the descriptors in \<open>image_info\<close>; so slice \<open>k\<close> is the slice of the \<open>k\<close>-th descriptor that
  passes.  From five images on nothing is padded; seven images leave the first five, two
  images are followed by three zero slices.
\<close>

theorem preprocess_interleaved_image_slots:
  assumes "preprocess_interleaved rt sample tok proc thr = Inr (t, ids, am)"
  shows "\<exists>info images ixs.
           json_loads rt sample = Inr info \<and>
           collect_images rt thr (image_info info) = Inr (images, ixs) \<and>
           (let n = length images;
                slot = (\<lambda>img. if torch_rand rt < 1 / 2 then map (map rev) (proc img) else proc img);
                zero = replicate 3 (replicate 224 (replicate 224 0))
            in n = length (filter (passes_filter rt thr) (image_info info))
             \<and> map Inr images
                  = map (\<lambda>si. case b64decode rt (image_base64 si) of
                                 Inl e \<Rightarrow> Inl e
                               | Inr rawbytes \<Rightarrow> open_rgb rt rawbytes)
                      (filter (passes_filter rt thr) (image_info info))
             \<and> (\<forall>k < min n 5. t ! k = slot (images ! k))
             \<and> 1 \<le> n
             \<and> length t = 5
             \<and> t = map slot (take 5 images) @ replicate (5 - n) zero
             \<and> (5 \<le> n \<longrightarrow> t = map slot (take 5 images))
             \<and> (n < 5 \<longrightarrow> take n t = map slot images \<and> drop n t = replicate (5 - n) zero)
             \<and> (n = 7 \<longrightarrow> t = map slot (take 5 images))
             \<and> (n = 2 \<longrightarrow> t = map slot images @ replicate 3 zero))"
proof -
  from assms obtain info where info: "json_loads rt sample = Inr info"
    unfolding preprocess_interleaved_def by (auto split: sum.splits)
  from assms info obtain images ixs where
    coll: "collect_images rt thr (image_info info) = Inr (images, ixs)"
    unfolding preprocess_interleaved_def by (auto split: sum.splits)
  from assms info coll have ne: "images \<noteq> []"
    unfolding preprocess_interleaved_def by (auto split: if_splits)
  from assms info coll ne obtain ts where
    ts: "preprocess_image images proc (torch_rand rt) = Inr ts"
    unfolding preprocess_interleaved_def by (auto split: sum.splits)
  define slot where
    "slot = (\<lambda>img. if torch_rand rt < 1 / 2 then map (map rev) (proc img) else proc img)"
  define zero :: tensor3 where "zero = replicate 3 (replicate 224 (replicate 224 0))"
  define n where "n = length images"
  have shown: "preprocess_image images proc (torch_rand rt) = Inr (map slot images)"
    using preprocess_image_Inr [OF ts] ts by (simp add: slot_def hflip_def)
  have t: "t = map slot (take 5 images) @ replicate (5 - n) zero"
  proof (cases "n < MAX_NUM_IMAGES")
    case True
    with assms info coll ne shown show ?thesis
      unfolding preprocess_interleaved_def Let_def n_def
      by (auto simp: map_nth_upt_take map_nth_upt_le torch_zeros_def zero_def MAX_NUM_IMAGES_def
               split: sum.splits prod.splits if_splits dest!: torch_cat_pad)
  next
    case False
    with assms info coll ne shown show ?thesis
      unfolding preprocess_interleaved_def Let_def n_def
      by (auto simp: map_nth_upt_take map_nth_upt_le torch_zeros_def zero_def MAX_NUM_IMAGES_def take_map
               split: sum.splits prod.splits if_splits)
  qed
  have kept: "n = length (filter (passes_filter rt thr) (image_info info))"
    using collect_images_kept [OF coll] by (simp add: n_def)
  have ord: "map Inr images
                  = map (\<lambda>si. case b64decode rt (image_base64 si) of
                                 Inl e \<Rightarrow> Inl e
                               | Inr rawbytes \<Rightarrow> open_rgb rt rawbytes)
                      (filter (passes_filter rt thr) (image_info info))"
    using coll by (rule collect_images_order)
  have nth: "\<forall>k < min n 5. t ! k = slot (images ! k)"
    using t by (simp add: n_def nth_append)
  have n1: "1 \<le> n" using ne by (simp add: n_def Suc_le_eq)
  have len: "length t = 5" using t n1 by (simp add: n_def)
  have ge: "5 \<le> n \<longrightarrow> t = map slot (take 5 images)" using t by simp
  have lt: "n < 5 \<longrightarrow> take n t = map slot images \<and> drop n t = replicate (5 - n) zero"
    using t by (simp add: n_def)
  have two: "n = 2 \<longrightarrow> t = map slot images @ replicate 3 zero"
    using t by (simp add: n_def)
  have seven: "n = 7 \<longrightarrow> t = map slot (take 5 images)" using t by simp
  show ?thesis
    using info coll kept ord nth n1 len t ge lt two seven
    unfolding Let_def n_def slot_def zero_def by blast
qed



theorem preprocess_interleaved_image_slots_witness:
  "preprocess_interleaved
      (example_runtime
         \<lparr>text_list = [''a cat'', ''and'', ''a dog''],
          image_info = [example_image ''xxxxxxxxxxxxxxxxxxxxxx'' 0, example_image ''xx'' 1,
                        example_image ''xxxxxxxxxxxxxxxxxxxxxxxx'' 2]\<rparr> (3 / 4) (3 / 4))
      ''{}'' (example_tokenizer [32001, 7, 32001]) example_processor (1 / 4)
    = Inr ([example_processor 11000, example_processor 12000]
             @ replicate 3 (replicate 3 (replicate 224 (replicate 224 0))),
           [32001, 7, 32001], [1, 1, 1])
   \<and> length ([example_processor 11000, example_processor 12000]
             @ replicate 3 (replicate 3 (replicate 224 (replicate 224 (0::rat))))) = 5
   \<and> length (filter (passes_filter (example_runtime
         \<lparr>text_list = [''a cat'', ''and'', ''a dog''],
          image_info = [example_image ''xxxxxxxxxxxxxxxxxxxxxx'' 0, example_image ''xx'' 1,
                        example_image ''xxxxxxxxxxxxxxxxxxxxxxxx'' 2]\<rparr> (3 / 4) (3 / 4)) (1 / 4))
        [example_image ''xxxxxxxxxxxxxxxxxxxxxx'' 0, example_image ''xx'' 1,
                        example_image ''xxxxxxxxxxxxxxxxxxxxxxxx'' 2]) = 2"
proof -
  let ?doc = "\<lparr>text_list = [''a cat'', ''and'', ''a dog''],
          image_info = [example_image ''xxxxxxxxxxxxxxxxxxxxxx'' 0, example_image ''xx'' 1,
                        example_image ''xxxxxxxxxxxxxxxxxxxxxxxx'' 2]\<rparr>"
  let ?rt = "example_runtime ?doc (3 / 4) (3 / 4)"
  have coll: "collect_images ?rt (1 / 4) (image_info ?doc) = Inr ([11000, 12000], [0, 2])"
    by (simp add: example_runtime_def example_image_def MIN_KB_def open_rgb_def)
  have h: "preprocess_interleaved ?rt ''{}'' (example_tokenizer [32001, 7, 32001]) example_processor (1 / 4)
    = Inr ([example_processor 11000, example_processor 12000]
             @ replicate 3 (replicate 3 (replicate 224 (replicate 224 0))),
           [32001, 7, 32001], [1, 1, 1])"
    apply (subst preprocess_interleaved_eval [where info = ?doc and images = "[11000, 12000]" and ixs = "[0, 2]"
         and image_id = 32001 and input_ids = "[32001, 7, 32001]" and am = "[1, 1, 1]"
         and sentences = "[''<|endofchunk|><image>a cat'', ''and'', ''<|endofchunk|><image>a dog'']"])
           apply (simp add: example_runtime_def)
          apply (rule coll)
         apply simp
        apply (simp add: example_processor_shape)
       apply (simp add: MAX_NUM_IMAGES_def py_index_def)
      apply (simp add: image_token_id_def example_tokenizer_def)
     apply (simp add: example_tokenizer_def)
    apply (simp add: example_runtime_def MAX_NUM_IMAGES_def torch_zeros_def)
    done
  from preprocess_interleaved_image_slots [OF h] h coll show ?thesis
    by (simp add: passes_filter_def example_runtime_def example_image_def MIN_KB_def)
qed

section \<open>Properties of the regroup stage\<close>

lemma update_fresh: "map_of s k = None \<Longrightarrow> AList.update k v s = s @ [(k, v)]"
  by (induction s) (auto split: if_splits)

lemma distinct_map_Cons_neq: "distinct (map f (x # xs)) \<Longrightarrow> y \<in> set xs \<Longrightarrow> f y \<noteq> f x"
  by (metis distinct.simps(2) image_eqI list.simps(9) set_map)

lemma group_loop_step:
  "K (fname r) = Some (p, e) \<Longrightarrow>
   group_loop lo K L None cur (r # rest) =
     (case cur of
        None \<Rightarrow>
          group_loop lo K L None
            (Some (AList.update (stored_suffix lo K L r) (Bytes (data r))
                     [(''__key__'', Str p), (''__url__'', Str (url r))])) rest
      | Some s \<Rightarrow>
          if map_of s ''__key__'' \<noteq> Some (Str p) \<or> map_of s (stored_suffix lo K L r) \<noteq> None
          then (if valid_sample (Some s) then [s] else [])
                 @ group_loop lo K L None
                     (Some (AList.update (stored_suffix lo K L r) (Bytes (data r))
                              [(''__key__'', Str p), (''__url__'', Str (url r))])) rest
          else group_loop lo K L None (Some (AList.update (stored_suffix lo K L r) (Bytes (data r)) s)) rest)"
  by (cases cur) (simp_all add: stored_suffix_def Let_def)

lemma group_loop_extend:
  assumes "map_of s ''__key__'' = Some (Str p)"
    and "\<forall>r \<in> set recs. \<exists>e. K (fname r) = Some (p, e)"
    and "distinct (map (stored_suffix lo K L) recs)"
    and "\<forall>r \<in> set recs. map_of s (stored_suffix lo K L r) = None"
  shows "group_loop lo K L None (Some s) (recs @ rest)
           = group_loop lo K L None (Some (s @ map (\<lambda>r. (stored_suffix lo K L r, Bytes (data r))) recs)) rest"
  using assms
proof (induction recs arbitrary: s)
  case Nil
  then show ?case by simp
next
  case (Cons r recs)
  from Cons.prems(2) obtain e where e: "K (fname r) = Some (p, e)" by auto
  have fresh: "map_of s (stored_suffix lo K L r) = None" using Cons.prems(4) by simp
  let ?s' = "s @ [(stored_suffix lo K L r, Bytes (data r))]"
  have step: "group_loop lo K L None (Some s) ((r # recs) @ rest) = group_loop lo K L None (Some ?s') (recs @ rest)"
    using fresh Cons.prems(1) by (simp add: group_loop_step [where K = K and r = r and p = p and e = e, OF e] update_fresh del: group_loop.simps)
  have k': "map_of ?s' ''__key__'' = Some (Str p)" using Cons.prems(1) by (simp add: map_add_Some_iff)
  have "stored_suffix lo K L r' \<noteq> stored_suffix lo K L r" if "r' \<in> set recs" for r'
    using distinct_map_Cons_neq [OF Cons.prems(3) that] .
  then have f': "\<forall>r' \<in> set recs. map_of ?s' (stored_suffix lo K L r') = None"
    using Cons.prems(4) by (auto simp: map_add_def split: option.splits)
  from Cons.IH [OF k' _ _ f'] Cons.prems(2,3) step show ?case by simp
qed

lemma group_loop_start:
  assumes "well_grouped lo K L (p, recs)"
    and "cur = None \<or> (\<exists>s q. cur = Some s \<and> map_of s ''__key__'' = Some (Str q) \<and> q \<noteq> p)"
  shows "group_loop lo K L None cur (recs @ rest)
           = (case cur of None \<Rightarrow> [] | Some s \<Rightarrow> if valid_sample (Some s) then [s] else [])
               @ group_loop lo K L None (Some (sample_of lo K L (p, recs))) rest"
proof -
  from assms(1) obtain r rs where recs: "recs = r # rs"
    by (cases recs) (auto simp: well_grouped_def)
  from assms(1) recs obtain e where e: "K (fname r) = Some (p, e)"
    by (auto simp: well_grouped_def)
  let ?s0 = "[(''__key__'', Str p), (''__url__'', Str (url r)), (stored_suffix lo K L r, Bytes (data r))]"
  have res: "stored_suffix lo K L r \<noteq> ''__key__''" "stored_suffix lo K L r \<noteq> ''__url__''"
    using assms(1) recs by (auto simp: well_grouped_def)
  have first: "group_loop lo K L None cur ((r # rs) @ rest)
           = (case cur of None \<Rightarrow> [] | Some s \<Rightarrow> if valid_sample (Some s) then [s] else [])
               @ group_loop lo K L None (Some ?s0) (rs @ rest)"
    using assms(2) res by (auto simp: group_loop_step [where K = K and r = r and p = p and e = e, OF e] simp del: group_loop.simps)
  have k: "map_of ?s0 ''__key__'' = Some (Str p)" by simp
  have all: "\<forall>r \<in> set rs. \<exists>e. K (fname r) = Some (p, e)"
    using assms(1) recs by (auto simp: well_grouped_def)
  have d: "distinct (map (stored_suffix lo K L) rs)"
    using assms(1) recs by (auto simp: well_grouped_def)
  have dd: "distinct (map (stored_suffix lo K L) (r # rs))"
    using assms(1) recs by (simp add: well_grouped_def)
  have rr: "\<forall>r' \<in> set rs. stored_suffix lo K L r' \<noteq> ''__key__'' \<and> stored_suffix lo K L r' \<noteq> ''__url__''"
    using assms(1) recs by (simp add: well_grouped_def)
  have fr: "\<forall>r' \<in> set rs. map_of ?s0 (stored_suffix lo K L r') = None"
    using rr distinct_map_Cons_neq [OF dd] by auto
  from group_loop_extend [OF k all d fr, of rest] first recs show ?thesis by simp
qed

lemma sample_of_key: "map_of (sample_of lo K L (p, recs)) ''__key__'' = Some (Str p)"
  by simp

lemma group_loop_groups:
  assumes "\<forall>g \<in> set groups. well_grouped lo K L g"
    and "distinct (q # map fst groups)"
    and "map_of s ''__key__'' = Some (Str q)"
    and "valid_sample (Some s)"
  shows "group_loop lo K L None (Some s) (concat (map snd groups)) = s # map (sample_of lo K L) groups"
  using assms
proof (induction groups arbitrary: s q)
  case Nil
  then show ?case by simp
next
  case (Cons g groups)
  obtain p recs where g: "g = (p, recs)" by (cases g)
  have wg: "well_grouped lo K L (p, recs)" using Cons.prems(1) g by simp
  have cur: "Some s = None \<or> (\<exists>s' q'. Some s = Some s' \<and> map_of s' ''__key__'' = Some (Str q') \<and> q' \<noteq> p)"
    using Cons.prems(2,3) g by auto
  have v: "valid_sample (Some (sample_of lo K L (p, recs)))" using wg by (simp add: well_grouped_def)
  have "group_loop lo K L None (Some (sample_of lo K L (p, recs))) (concat (map snd groups))
          = sample_of lo K L (p, recs) # map (sample_of lo K L) groups"
    using Cons.IH [OF _ _ sample_of_key v] Cons.prems(1,2) g by simp
  with group_loop_start [OF wg cur, of "concat (map snd groups)"] Cons.prems(4) g
  show ?case by simp
qed

lemma group_by_keys_concat:
  assumes "\<forall>g \<in> set groups. well_grouped lo K L g" and "distinct (map fst groups)"
  shows "group_by_keys_nothrow lo (concat (map snd groups)) K L None = map (sample_of lo K L) groups"
proof (cases groups)
  case Nil
  then show ?thesis by (simp add: group_by_keys_nothrow_def)
next
  case (Cons g gs)
  obtain p recs where g: "g = (p, recs)" by (cases g)
  have wg: "well_grouped lo K L (p, recs)" using assms(1) Cons g by simp
  have v: "valid_sample (Some (sample_of lo K L (p, recs)))" using wg by (simp add: well_grouped_def)
  have "group_loop lo K L None (Some (sample_of lo K L (p, recs))) (concat (map snd gs))
          = sample_of lo K L (p, recs) # map (sample_of lo K L) gs"
    using group_loop_groups [OF _ _ sample_of_key v, of gs] assms Cons g by simp
  with group_loop_start [OF wg, of None "concat (map snd gs)"] Cons g
  show ?thesis by (simp add: group_by_keys_nothrow_def)
qed

lemma sample_of_holds_record:
  assumes "well_grouped lo K L g" and "r \<in> set (snd g)"
  shows "map_of (sample_of lo K L g) (stored_suffix lo K L r) = Some (Bytes (data r))"
proof -
  obtain p recs where g: "g = (p, recs)" by (cases g)
  let ?entries = "map (\<lambda>r. (stored_suffix lo K L r, Bytes (data r))) recs"
  have d: "distinct (map fst ?entries)"
    using assms(1) g by (simp add: well_grouped_def comp_def)
  have "(stored_suffix lo K L r, Bytes (data r)) \<in> set ?entries"
    using assms(2) g by auto
  with d have "map_of ?entries (stored_suffix lo K L r) = Some (Bytes (data r))"
    by (rule map_of_is_SomeI)
  moreover have "stored_suffix lo K L r \<noteq> ''__key__''" "stored_suffix lo K L r \<noteq> ''__url__''"
    using assms g by (auto simp: well_grouped_def)
  ultimately show ?thesis using g by simp
qed

lemma group_loop_filter:
  "group_loop lo K L S cur (filter (\<lambda>r. K (fname r) \<noteq> None) stream) = group_loop lo K L S cur stream"
proof (induction stream arbitrary: cur)
  case Nil
  show ?case by simp
next
  case (Cons r rest)
  show ?case
  proof (cases "K (fname r)")
    case None
    then show ?thesis using Cons.IH by simp
  next
    case (Some pe)
    obtain p e where pe: "pe = (p, e)" by (cases pe)
    have f: "filter (\<lambda>r. K (fname r) \<noteq> None) (r # rest) = r # filter (\<lambda>r. K (fname r) \<noteq> None) rest"
      using Some by simp
    show ?thesis unfolding f
      by (cases cur) (simp_all add: Some pe Let_def Cons.IH del: not_None_eq)
  qed
qed

text \<open>
  C7 (amended).  Let the records of the stream whose names split (the others are skipped)
  be the records of the groups \<open>groups\<close>, one group after the other, where the groups have
  pairwise different prefixes and every group is well grouped (its records split with the
  group's prefix, its case-folded extensions are pairwise different and none is \<open>__key__\<close>
  or \<open>__url__\<close>, and its sample is valid).  Then the regroup stage yields exactly one sample
  per group, in order: the prefix under \<open>__key__\<close>, the first record's url under
  \<open>__url__\<close>, and every record's data under its case-folded extension.  On a record whose
  name splits, the current sample is flushed exactly when its prefix differs or the
  extension is already in it, and the flushed sample is yielded only if valid; a record
  whose name does not split changes nothing; the stage is a total function and raises
  nothing.  Case folding is \<open>str.lower\<close>, whatever it does to the extensions.
\<close>

theorem group_by_keys_nothrow_roundtrip:
  assumes "\<forall>g \<in> set groups. well_grouped str_lower keys lcase g" and "distinct (map fst groups)"
    and "filter (\<lambda>r. keys (fname r) \<noteq> None) stream = concat (map snd groups)"
  shows "group_by_keys_nothrow str_lower stream keys lcase None
           = map (sample_of str_lower keys lcase) groups
    \<and> (\<forall>g \<in> set groups.
          map_of (sample_of str_lower keys lcase g) ''__key__'' = Some (Str (fst g))
          \<and> (\<forall>r \<in> set (snd g).
                map_of (sample_of str_lower keys lcase g) (stored_suffix str_lower keys lcase r)
                  = Some (Bytes (data r))))
    \<and> (\<forall>s r rest p e. keys (fname r) = Some (p, e) \<longrightarrow>
          stored_suffix str_lower keys lcase r = (if lcase then str_lower e else e)
          \<and> group_loop str_lower keys lcase None (Some s) (r # rest) =
            (if map_of s ''__key__'' \<noteq> Some (Str p)
                \<or> map_of s (stored_suffix str_lower keys lcase r) \<noteq> None
             then (if valid_sample (Some s) then [s] else [])
                    @ group_loop str_lower keys lcase None
                        (Some (AList.update (stored_suffix str_lower keys lcase r) (Bytes (data r))
                                 [(''__key__'', Str p), (''__url__'', Str (url r))])) rest
             else group_loop str_lower keys lcase None
                    (Some (AList.update (stored_suffix str_lower keys lcase r) (Bytes (data r)) s)) rest))
    \<and> (\<forall>cur r rest. keys (fname r) = None \<longrightarrow>
          group_loop str_lower keys lcase None cur (r # rest)
            = group_loop str_lower keys lcase None cur rest)"
proof (intro conjI ballI allI impI)
  have "group_by_keys_nothrow str_lower stream keys lcase None
          = group_by_keys_nothrow str_lower (filter (\<lambda>r. keys (fname r) \<noteq> None) stream) keys lcase None"
    unfolding group_by_keys_nothrow_def by (rule group_loop_filter [symmetric])
  also have "\<dots> = map (sample_of str_lower keys lcase) groups"
    unfolding assms(3) using assms(1,2) by (rule group_by_keys_concat)
  finally show "group_by_keys_nothrow str_lower stream keys lcase None
          = map (sample_of str_lower keys lcase) groups" .
next
  fix g assume "g \<in> set groups"
  show "map_of (sample_of str_lower keys lcase g) ''__key__'' = Some (Str (fst g))"
    by (cases g) simp
next
  fix g r assume "g \<in> set groups" "r \<in> set (snd g)"
  with assms(1)
  show "map_of (sample_of str_lower keys lcase g) (stored_suffix str_lower keys lcase r)
          = Some (Bytes (data r))"
    by (auto intro: sample_of_holds_record)
next
  fix s rest p e and r :: filesample
  assume "keys (fname r) = Some (p, e)"
  then show "stored_suffix str_lower keys lcase r = (if lcase then str_lower e else e)"
    by (simp add: stored_suffix_def)
next
  fix s rest p e and r :: filesample
  assume "keys (fname r) = Some (p, e)"
  from group_loop_step [where K = keys and r = r and p = p and e = e and lo = str_lower
         and L = lcase and cur = "Some s" and rest = rest, OF this]
  show "group_loop str_lower keys lcase None (Some s) (r # rest) =
            (if map_of s ''__key__'' \<noteq> Some (Str p)
                \<or> map_of s (stored_suffix str_lower keys lcase r) \<noteq> None
             then (if valid_sample (Some s) then [s] else [])
                    @ group_loop str_lower keys lcase None
                        (Some (AList.update (stored_suffix str_lower keys lcase r) (Bytes (data r))
                                 [(''__key__'', Str p), (''__url__'', Str (url r))])) rest
             else group_loop str_lower keys lcase None
                    (Some (AList.update (stored_suffix str_lower keys lcase r) (Bytes (data r)) s)) rest)"
    by simp
next
  fix cur rest and r :: filesample
  assume "keys (fname r) = None"
  then show "group_loop str_lower keys lcase None cur (r # rest)
               = group_loop str_lower keys lcase None cur rest"
    by simp
qed

theorem group_by_keys_nothrow_roundtrip_witness:
  "group_by_keys_nothrow example_lower
     [\<lparr>fname = ''a.jpg'', data = [1], url = ''s0''\<rparr>, \<lparr>fname = ''README'', data = [9], url = ''s0''\<rparr>,
      \<lparr>fname = ''a.TXT'', data = [2], url = ''s0''\<rparr>,
      \<lparr>fname = ''b.jpg'', data = [3], url = ''s1''\<rparr>] split_at_dot True None
   = [[(''__key__'', Str ''a''), (''__url__'', Str ''s0''), (''jpg'', Bytes [1]), (''txt'', Bytes [2])],
      [(''__key__'', Str ''b''), (''__url__'', Str ''s1''), (''jpg'', Bytes [3])]]"
proof -
  let ?groups = "[(''a'', [\<lparr>fname = ''a.jpg'', data = [1], url = ''s0''\<rparr>,
                          \<lparr>fname = ''a.TXT'', data = [2], url = ''s0''\<rparr>]),
                  (''b'', [\<lparr>fname = ''b.jpg'', data = [3], url = ''s1''\<rparr>])]"
  let ?stream = "[\<lparr>fname = ''a.jpg'', data = [1], url = ''s0''\<rparr>,
      \<lparr>fname = ''README'', data = [9], url = ''s0''\<rparr>,
      \<lparr>fname = ''a.TXT'', data = [2], url = ''s0''\<rparr>,
      \<lparr>fname = ''b.jpg'', data = [3], url = ''s1''\<rparr>]"
  have wf: "\<forall>g \<in> set ?groups. well_grouped example_lower split_at_dot True g"
    by (simp add: well_grouped_def stored_suffix_def split_at_dot_def example_lower_def
          example_lower_char_def)
  have d: "distinct (map fst ?groups)" by simp
  have f: "filter (\<lambda>r. split_at_dot (fname r) \<noteq> None) ?stream = concat (map snd ?groups)"
    by (simp add: split_at_dot_def)
  from group_by_keys_nothrow_roundtrip [OF wf d f]
  have "group_by_keys_nothrow example_lower ?stream split_at_dot True None
          = map (sample_of example_lower split_at_dot True) ?groups"
    by (rule conjunct1)
  then show ?thesis
    by (simp add: stored_suffix_def split_at_dot_def example_lower_def example_lower_char_def)
qed

text \<open>
  The claim as stated does not ask for the records of a prefix to be consecutive.  In the
  stream below no extension repeats for a prefix and each prefix's records make a valid
  sample, yet the prefix \<open>a\<close> is yielded twice, each time with one of its two extensions.
\<close>

theorem group_by_keys_nothrow_interleaved_prefixes:
  "group_by_keys_nothrow example_lower
     [\<lparr>fname = ''a.jpg'', data = [1], url = ''s0''\<rparr>, \<lparr>fname = ''b.jpg'', data = [2], url = ''s0''\<rparr>,
      \<lparr>fname = ''a.txt'', data = [3], url = ''s0''\<rparr>] split_at_dot True None
   = [[(''__key__'', Str ''a''), (''__url__'', Str ''s0''), (''jpg'', Bytes [1])],
      [(''__key__'', Str ''b''), (''__url__'', Str ''s0''), (''jpg'', Bytes [2])],
      [(''__key__'', Str ''a''), (''__url__'', Str ''s0''), (''txt'', Bytes [3])]]"
  by (simp add: group_by_keys_nothrow_def split_at_dot_def example_lower_def
        example_lower_char_def Let_def)

section \<open>Properties of the deterministic shuffle stage\<close>

lemma run_epoch_fields:
  "bufsize (snd (run_epoch self)) = bufsize self"
  "initial (snd (run_epoch self)) = initial self"
  "seed (snd (run_epoch self)) = seed self"
  by (simp_all add: run_epoch_def split: epoch_field.splits)

text \<open>
  C3 (amended).  A run reads its epoch from the shared store, or advances its own counter
  and takes the new value.  With a non-negative configured seed the run returns webdataset's
  shuffle of the input with a generator seeded with \<open>seed + epoch\<close>, whatever the process
  it runs in; so two runs of stages with the same seed and buffer sizes whose epochs agree
  return the same ordering of the same input, in any two processes.  With a negative seed
  the generator is seeded with \<open>pytorch_worker_seed(epoch)\<close>: inside a data-loader worker
  that is the worker's seed plus \<open>epoch * max(1, num_workers)\<close>; outside one it is
  webdataset's own worker seed, in which the epoch has no part.
\<close>

theorem detshuffle2_same_seed_same_order:
  "(0 \<le> seed self \<longrightarrow>
      fst (run Random shuffle env self src)
        = shuffle src (bufsize self) (initial self) (Random (seed self + fst (run_epoch self)))
      \<and> (seed other = seed self \<and> bufsize other = bufsize self \<and> initial other = initial self
           \<and> fst (run_epoch other) = fst (run_epoch self) \<longrightarrow>
           fst (run Random shuffle envb other src) = fst (run Random shuffle env self src)))
   \<and> (seed self < 0 \<longrightarrow>
      fst (run Random shuffle env self src)
        = shuffle src (bufsize self) (initial self)
            (Random (case get_worker_info env of
                       Some w \<Rightarrow> worker_seed w + fst (run_epoch self) * max 1 (num_workers w)
                     | None \<Rightarrow> wds_pytorch_worker_seed env)))
   \<and> snd (run Random shuffle env self src) = snd (run_epoch self)
   \<and> run_epoch (self\<lparr>epoch := Shared e\<rparr>) = (sint (shared_epoch e), self\<lparr>epoch := Shared e\<rparr>)
   \<and> run_epoch (self\<lparr>epoch := Counter n\<rparr>) = (n + 1, self\<lparr>epoch := Counter (n + 1)\<rparr>)"
  by (auto simp: run_def run_seed_def run_epoch_def get_value_def pytorch_worker_seed_def Let_def
           split: prod.splits option.splits epoch_field.splits)

theorem detshuffle2_same_seed_same_order_witness:
  "fst (run (\<lambda>s. s) (\<lambda>src b i r. rotate (nat r) src)
          \<lparr>get_worker_info = Some \<lparr>worker_seed = 7, num_workers = 2\<rparr>, wds_pytorch_worker_seed = 1000\<rparr>
          \<lparr>bufsize = 2000, initial = 500, seed = 42, epoch = Shared (SharedEpoch_init 3)\<rparr>
          [''s0'', ''s1'', ''s2'', ''s3''])
   = rotate 45 [''s0'', ''s1'', ''s2'', ''s3'']
   \<and> fst (run (\<lambda>s. s) (\<lambda>src b i r. rotate (nat r) src)
          \<lparr>get_worker_info = None, wds_pytorch_worker_seed = 2001\<rparr>
          \<lparr>bufsize = 2000, initial = 500, seed = 42, epoch = Counter 2\<rparr>
          [''s0'', ''s1'', ''s2'', ''s3''])
   = rotate 45 [''s0'', ''s1'', ''s2'', ''s3'']
   \<and> fst (run (\<lambda>s. s) (\<lambda>src b i r. rotate (nat r) src)
          \<lparr>get_worker_info = Some \<lparr>worker_seed = 7, num_workers = 2\<rparr>, wds_pytorch_worker_seed = 1000\<rparr>
          \<lparr>bufsize = 2000, initial = 500, seed = - 1, epoch = Counter 2\<rparr>
          [''s0'', ''s1'', ''s2'', ''s3''])
   = rotate 13 [''s0'', ''s1'', ''s2'', ''s3'']"
proof -
  let ?sh = "\<lparr>bufsize = 2000, initial = 500, seed = 42, epoch = Shared (SharedEpoch_init 3)\<rparr>"
  let ?ct = "\<lparr>bufsize = 2000, initial = 500, seed = 42, epoch = Counter 2\<rparr>"
  let ?neg = "\<lparr>bufsize = 2000, initial = 500, seed = - 1, epoch = Counter 2\<rparr>"
  let ?w = "\<lparr>get_worker_info = Some \<lparr>worker_seed = 7, num_workers = 2\<rparr>, wds_pytorch_worker_seed = 1000\<rparr>"
  let ?m = "\<lparr>get_worker_info = None, wds_pytorch_worker_seed = 2001\<rparr>"
  let ?src = "[''s0'', ''s1'', ''s2'', ''s3'']"
  have es: "fst (run_epoch ?sh) = 3"
    by (simp add: run_epoch_def get_value_def SharedEpoch_init_def)
  have ec: "fst (run_epoch ?ct) = 3" by (simp add: run_epoch_def)
  have en: "fst (run_epoch ?neg) = 3" by (simp add: run_epoch_def)
  have same: "seed ?ct = seed ?sh \<and> bufsize ?ct = bufsize ?sh \<and> initial ?ct = initial ?sh
                \<and> fst (run_epoch ?ct) = fst (run_epoch ?sh)"
    using es ec by simp
  have pos: "0 \<le> seed ?sh" by simp
  have neg: "seed ?neg < 0" by simp
  note a = detshuffle2_same_seed_same_order
         [where self = ?sh and other = ?ct and env = ?w and envb = ?m and Random = "\<lambda>s. s"
            and shuffle = "\<lambda>src b i r. rotate (nat r) src" and src = ?src]
  note b = detshuffle2_same_seed_same_order
         [where self = ?neg and other = ?neg and env = ?w and envb = ?w and Random = "\<lambda>s. s"
            and shuffle = "\<lambda>src b i r. rotate (nat r) src" and src = ?src]
  from a pos es
  have r1: "fst (run (\<lambda>s. s) (\<lambda>src b i r. rotate (nat r) src) ?w ?sh ?src) = rotate 45 ?src"
    by simp
  from a pos same
  have r2: "fst (run (\<lambda>s. s) (\<lambda>src b i r. rotate (nat r) src) ?m ?ct ?src)
              = fst (run (\<lambda>s. s) (\<lambda>src b i r. rotate (nat r) src) ?w ?sh ?src)"
    by blast
  from b neg en
  have r3: "fst (run (\<lambda>s. s) (\<lambda>src b i r. rotate (nat r) src) ?w ?neg ?src) = rotate 13 ?src"
    by simp
  from r1 r2 r3 show ?thesis by simp
qed

text \<open>
  The claim as stated derives the seed of a negative configured seed from the worker's seed
  and the epoch.  Outside a data-loader worker the fallback \<open>wds.utils.pytorch_worker_seed()\<close>
  is called without the epoch: the runs of epoch 3 and of epoch 4 below seed the generator
  with the same number, 2001.
\<close>

theorem detshuffle2_negative_seed_outside_worker:
  "fst (run (\<lambda>s. s) (\<lambda>src b i r. r # src) \<lparr>get_worker_info = None, wds_pytorch_worker_seed = 2001\<rparr>
          \<lparr>bufsize = 2000, initial = 500, seed = - 1, epoch = Counter 2\<rparr> [])
     = [2001]
   \<and> fst (run (\<lambda>s. s) (\<lambda>src b i r. r # src) \<lparr>get_worker_info = None, wds_pytorch_worker_seed = 2001\<rparr>
          \<lparr>bufsize = 2000, initial = 500, seed = - 1, epoch = Counter 3\<rparr> [])
     = [2001]
   \<and> fst (run_epoch \<lparr>bufsize = 2000, initial = 500, seed = - 1, epoch = Counter 2\<rparr>) = 3
   \<and> fst (run_epoch \<lparr>bufsize = 2000, initial = 500, seed = - 1, epoch = Counter 3\<rparr>) = 4"
  by (simp add: run_def run_seed_def run_epoch_def pytorch_worker_seed_def)

section \<open>Properties of true division\<close>

text \<open>
  For positive integers below \<open>2^53\<close> the float quotient lies strictly between the same
  two integers as the exact quotient (or is that integer), so \<open>math.floor\<close> and \<open>math.ceil\<close>
  of it are those of the exact quotient.
\<close>

lemma ilog2_bounds: "0 < n \<Longrightarrow> 2 ^ ilog2 n \<le> n \<and> n < 2 ^ Suc (ilog2 n)"
proof (induction n rule: ilog2.induct)
  case (1 n)
  show ?case
  proof (cases "n < 2")
    case True
    then have "ilog2 n = 0" by (simp add: ilog2.simps)
    with True "1.prems" show ?thesis by simp
  next
    case False
    then have "0 < n div 2" by simp
    with "1.IH" False have IH: "2 ^ ilog2 (n div 2) \<le> n div 2" "n div 2 < 2 ^ Suc (ilog2 (n div 2))"
      by auto
    have eq: "ilog2 n = Suc (ilog2 (n div 2))" using False by (simp add: ilog2.simps [of n])
    from IH show ?thesis unfolding eq by auto
  qed
qed

lemma round_half_even_of_int: "round_half_even (of_int j) = j"
  by (simp add: round_half_even_def)

lemma round_half_even_ge_floor: "\<lfloor>x\<rfloor> \<le> round_half_even x"
  by (simp add: round_half_even_def Let_def)

lemma round_half_even_le_floor: "round_half_even x \<le> \<lfloor>x\<rfloor> + 1"
  by (simp add: round_half_even_def Let_def)

lemma round_half_even_gt:
  assumes "of_int j + 1 / 2 < x"
  shows "j < round_half_even x"
proof -
  have "of_int j \<le> x" using assms by simp
  then have fj: "j \<le> \<lfloor>x\<rfloor>" by (simp add: le_floor_iff)
  show ?thesis
  proof (cases "\<lfloor>x\<rfloor> = j")
    case True
    then have "1 / 2 < x - of_int \<lfloor>x\<rfloor>" using assms by simp
    then have "round_half_even x = \<lfloor>x\<rfloor> + 1"
      by (simp add: round_half_even_def Let_def)
    with True show ?thesis by simp
  next
    case False
    with fj have "j < \<lfloor>x\<rfloor>" by simp
    with round_half_even_ge_floor [of x] show ?thesis by simp
  qed
qed

lemma round_half_even_lt:
  assumes "x < of_int j - 1 / 2"
  shows "round_half_even x < j"
proof -
  have "x < of_int j" using assms by simp
  then have fj: "\<lfloor>x\<rfloor> < j" by (simp add: floor_less_iff)
  show ?thesis
  proof (cases "\<lfloor>x\<rfloor> = j - 1")
    case True
    then have "x - of_int \<lfloor>x\<rfloor> < 1 / 2" using assms by simp
    then have "round_half_even x = \<lfloor>x\<rfloor>"
      by (simp add: round_half_even_def Let_def)
    with True show ?thesis by simp
  next
    case False
    with fj have "\<lfloor>x\<rfloor> + 1 < j" by simp
    with round_half_even_le_floor [of x] show ?thesis by simp
  qed
qed


lemma pow2_diff: "(2::rat) powi (int m - int n) = 2 ^ m / 2 ^ n"
  by (simp add: power_int_diff)

lemma pow2_succ: "(2::rat) powi (e + 1) = 2 * 2 powi e"
  by (simp add: power_int_add)

lemma pow2_pred: "(2::rat) powi (e - 1) = 2 powi e / 2"
  by (simp add: power_int_diff)

lemma float_exponent_bounds:
  assumes "0 < q"
  shows "2 powi (float_exponent q) \<le> q \<and> q < 2 powi (float_exponent q + 1)"
proof -
  obtain a b where ab: "quotient_of q = (a, b)" by (cases "quotient_of q")
  have b: "0 < b" using quotient_of_denom_pos [OF ab] .
  have q: "q = of_int a / of_int b" using quotient_of_div [OF ab] .
  have a: "0 < a" using assms b q by (simp add: zero_less_divide_iff)
  define la where "la = ilog2 (nat a)"
  define lb where "lb = ilog2 (nat b)"
  have nat_rat: "(of_nat (nat z) :: rat) = of_int z" if "0 < z" for z :: int
    using that by simp
  have bnd: "(2::rat) ^ ilog2 (nat z) \<le> of_int z \<and> of_int z < (2::rat) ^ Suc (ilog2 (nat z))"
    if "0 < z" for z :: int
  proof -
    have "0 < nat z" using that by simp
    from ilog2_bounds [OF this]
    have "(of_nat (2 ^ ilog2 (nat z)) :: rat) \<le> of_nat (nat z)"
      and "(of_nat (nat z) :: rat) < of_nat (2 ^ Suc (ilog2 (nat z)))"
      unfolding of_nat_le_iff of_nat_less_iff by simp_all
    then show ?thesis using nat_rat [OF that] by simp
  qed
  have a1: "(2::rat) ^ la \<le> of_int a" and a2: "of_int a < (2::rat) ^ Suc la"
    using bnd [OF a] by (simp_all add: la_def)
  have b1: "(2::rat) ^ lb \<le> of_int b" and b2: "of_int b < (2::rat) ^ Suc lb"
    using bnd [OF b] by (simp_all add: lb_def)
  have bp: "(0::rat) < of_int b" using b by simp
  have ap: "(0::rat) < of_int a" using a by simp
  have upper: "q < 2 powi (int la - int lb + 1)"
  proof -
    have "of_int a * (2::rat) ^ lb \<le> of_int a * of_int b"
      using b1 ap by (intro mult_left_mono) simp_all
    also have "\<dots> < 2 * 2 ^ la * of_int b"
      using a2 bp by (intro mult_strict_right_mono) simp_all
    finally have "of_int a * (2::rat) ^ lb < 2 * 2 ^ la * of_int b" .
    then have "q < 2 * 2 ^ la / 2 ^ lb"
      unfolding q using bp by (simp add: field_simps)
    then show ?thesis by (simp add: pow2_succ pow2_diff)
  qed
  have lower: "2 powi (int la - int lb - 1) < q"
  proof -
    have "(2::rat) ^ la * of_int b \<le> of_int a * of_int b"
      using a1 bp by (intro mult_right_mono) simp_all
    also have "\<dots> < of_int a * (2 * 2 ^ lb)"
      using b2 ap by (intro mult_strict_left_mono) simp_all
    finally have "(2::rat) ^ la * of_int b < of_int a * (2 * 2 ^ lb)" .
    then have "2 ^ la / (2 * 2 ^ lb) < q"
      unfolding q using bp by (simp add: field_simps)
    then show ?thesis by (simp add: pow2_pred pow2_diff)
  qed
  show ?thesis
    using upper lower unfolding float_exponent_def ab prod.case Let_def la_def [symmetric] lb_def [symmetric]
    by (auto simp: less_imp_le)
qed


lemma grid_round:
  fixes x :: rat and N k :: int
  assumes N: "0 < N"
    and lo: "1 / 2 < (x - of_int k) * of_int N"
    and hi: "1 / 2 < (of_int k + 1 - x) * of_int N"
  shows "of_int k < of_int (round_half_even (x * of_int N)) / (of_int N :: rat)"
    and "of_int (round_half_even (x * of_int N)) / (of_int N :: rat) < of_int k + 1"
proof -
  have Np: "(0::rat) < of_int N" using N by simp
  have "of_int (k * N) + 1 / 2 < x * of_int N"
    using lo by (simp add: algebra_simps)
  from round_half_even_gt [OF this]
  have "(of_int (k * N) :: rat) < of_int (round_half_even (x * of_int N))"
    by (simp only: of_int_less_iff)
  then show "of_int k < of_int (round_half_even (x * of_int N)) / (of_int N :: rat)"
    using Np by (simp add: pos_less_divide_eq)
  have "x * of_int N < of_int ((k + 1) * N) - 1 / 2"
    using hi by (simp add: algebra_simps)
  from round_half_even_lt [OF this]
  have "(of_int (round_half_even (x * of_int N)) :: rat) < of_int ((k + 1) * N)"
    by (simp only: of_int_less_iff)
  then show "of_int (round_half_even (x * of_int N)) / (of_int N :: rat) < of_int k + 1"
    using Np by (simp add: pos_divide_less_eq)
qed


lemma pow2_neg: "e \<le> 52 \<Longrightarrow> (2::rat) powi (e - 52) = 1 / of_int (2 ^ nat (52 - e))"
proof -
  assume "e \<le> 52"
  then have "(2::rat) powi (52 - e) = 2 ^ nat (52 - e)"
    by (simp add: power_int_def)
  moreover have "(2::rat) powi (e - 52) = inverse (2 powi (52 - e))"
    using power_int_minus [of "2::rat" "52 - e"] by simp
  ultimately show ?thesis by (simp add: divide_inverse)
qed

lemma fl_pos_eq:
  assumes "0 < q" and "- 1022 \<le> float_exponent q" and "float_exponent q \<le> 52"
  shows "fl q = of_int (round_half_even (q * of_int (2 ^ nat (52 - float_exponent q))))
                 / of_int (2 ^ nat (52 - float_exponent q))"
proof -
  have m: "max (float_exponent q) (- 1022) = float_exponent q" using assms(2) by simp
  have "fl q = of_int (round_half_even (q / 2 powi (float_exponent q - 52))) * 2 powi (float_exponent q - 52)"
    using assms(1) by (simp add: fl_def Let_def m)
  then show ?thesis unfolding pow2_neg [OF assms(3)] by simp
qed


lemma le_mult_ge1:
  fixes c x :: rat
  assumes "1 \<le> c" and "0 \<le> x"
  shows "x \<le> c * x"
  using mult_right_mono [of 1 c x] assms by simp

lemma fl_div_small:
  fixes a b :: int
  assumes a: "0 < a" "a < 2 ^ 53" and b: "0 < b" "b < 2 ^ 53"
  shows "\<lfloor>fl (of_int a / of_int b)\<rfloor> = \<lfloor>(of_int a / of_int b :: rat)\<rfloor>"
    and "\<lceil>fl (of_int a / of_int b)\<rceil> = \<lceil>(of_int a / of_int b :: rat)\<rceil>"
    and "\<bar>fl (of_int a / of_int b)\<bar> < 2 ^ 1024"
proof -
  define q :: rat where "q = of_int a / of_int b"
  define e where "e = float_exponent q"
  have ap: "(0::rat) < of_int a" and bp: "(0::rat) < of_int b" using a b by simp_all
  have b1: "(1::rat) \<le> of_int b" using b by (simp add: int_one_le_iff_zero_less)
  have qpos: "0 < q" unfolding q_def using ap bp by simp
  have ar: "(of_int a :: rat) < 2 ^ 53" using a(2) by (metis of_int_less_iff of_int_numeral of_int_power)
  have br: "(of_int b :: rat) < 2 ^ 53" using b(2) by (metis of_int_less_iff of_int_numeral of_int_power)
  have qa: "q \<le> of_int a" unfolding q_def using ap b1 by (simp add: pos_divide_le_eq mult_le_cancel_left1)
  have qb: "1 / of_int b \<le> q" unfolding q_def using a bp
    by (simp add: divide_le_cancel int_one_le_iff_zero_less)
  from float_exponent_bounds [OF qpos]
  have e1: "2 powi e \<le> q" and e2: "q < 2 powi (e + 1)" by (simp_all add: e_def)
  have e_hi: "e \<le> 52"
  proof (rule ccontr)
    assume "\<not> e \<le> 52"
    then have "53 \<le> e" by simp
    then have "(2::rat) powi 53 \<le> 2 powi e" by (intro power_int_increasing) simp_all
    with e1 qa ar show False by simp
  qed
  have e_lo: "- 53 \<le> e"
  proof (rule ccontr)
    assume "\<not> - 53 \<le> e"
    then have "e + 1 \<le> - 53" by simp
    then have "(2::rat) powi (e + 1) \<le> 2 powi (- 53)" by (intro power_int_increasing) simp_all
    with e2 qb have "1 / of_int b < (2::rat) powi (- 53)" by simp
    then have "(2::rat) ^ 53 < of_int b"
      using bp by (simp add: power_int_minus field_simps)
    with br show False by simp
  qed
  define N :: int where "N = 2 ^ nat (52 - e)"
  have Npos: "0 < N" by (simp add: N_def)
  have Nr: "(0::rat) < of_int N" using Npos by simp
  have flq: "fl q = of_int (round_half_even (q * of_int N)) / of_int N"
    using fl_pos_eq [OF qpos] e_lo e_hi by (simp add: e_def N_def)
  have bN: "(of_int b :: rat) < 2 * of_int N"
  proof -
    have P: "0 < (2::rat) powi e" by simp
    have "of_int b * (2::rat) powi e \<le> of_int a"
      using e1 bp unfolding q_def by (simp add: pos_le_divide_eq mult.commute)
    then have lt: "of_int b * (2::rat) powi e < 2 ^ 53" using ar by (rule le_less_trans)
    have "(2::rat) powi (52 - e) = of_int N" using e_hi by (simp add: N_def power_int_def)
    moreover have "(2::rat) powi (52 - e) * 2 powi e = 2 powi 52"
      using power_int_add [of "2::rat" "52 - e" e] by simp
    moreover have "(2::rat) powi 52 = 2 ^ 52" by (simp add: power_int_def)
    ultimately have "of_int N * (2::rat) powi e = 2 ^ 52" by simp
    then have "(2 * of_int N) * (2::rat) powi e = 2 * 2 ^ 52" by simp
    also have "\<dots> = (2::rat) ^ 53" by simp
    finally have eq: "(2 * of_int N) * (2::rat) powi e = 2 ^ 53" .
    from lt have "of_int b * (2::rat) powi e < (2 * of_int N) * 2 powi e"
      by (simp only: eq)
    then show ?thesis by (simp only: mult_less_cancel_right_pos [OF P])
  qed
  define k where "k = \<lfloor>q\<rfloor>"
  from floor_correct [of q] have kq: "of_int k \<le> q" "q < of_int k + 1"
    unfolding k_def of_int_add of_int_1 by blast+
  have both: "\<lfloor>fl q\<rfloor> = \<lfloor>q\<rfloor> \<and> \<lceil>fl q\<rceil> = \<lceil>q\<rceil> \<and> \<bar>fl q\<bar> \<le> of_int k + 1"
  proof (cases "q = of_int k")
    case True
    have "round_half_even (q * of_int N) = k * N"
      using round_half_even_of_int [of "k * N"] unfolding True by simp
    with flq Nr have "fl q = of_int k" by simp
    with True qpos show ?thesis by simp
  next
    case False
    with kq have lt: "of_int k < q" by simp
    define r where "r = a - k * b"
    have qr: "q - of_int k = of_int r / of_int b"
      unfolding q_def r_def using bp by (simp add: field_simps)
    have "0 < (of_int r :: rat) / of_int b" using lt qr by simp
    then have r0: "0 < r" using bp by (simp add: zero_less_divide_iff)
    have "(of_int r :: rat) / of_int b < 1" using kq(2) qr by simp
    then have "(of_int r :: rat) < of_int b" using bp by (simp add: pos_divide_less_eq)
    then have rb: "r < b" by simp
    have r1: "(1::rat) \<le> of_int r" using r0 by (simp add: int_one_le_iff_zero_less)
    have r2: "(1::rat) \<le> of_int b - of_int r" using rb
      by (metis of_int_diff of_int_1_le_iff int_one_le_iff_zero_less diff_gt_0_iff_gt)
    have Nb: "(0::rat) \<le> of_int N / of_int b" using Nr bp by simp
    have half: "1 / 2 < of_int N / (of_int b :: rat)"
      using bN bp by (simp add: pos_less_divide_eq)
    have "of_int N / (of_int b :: rat) \<le> of_int r * (of_int N / of_int b)"
      using r1 Nb by (rule le_mult_ge1)
    with half have "1 / 2 < of_int r * (of_int N / (of_int b :: rat))" by (rule less_le_trans)
    moreover have "(q - of_int k) * of_int N = of_int r * (of_int N / (of_int b :: rat))"
      unfolding qr by simp
    ultimately have lo: "1 / 2 < (q - of_int k) * of_int N" by simp
    have qr': "of_int k + 1 - q = (of_int b - of_int r) / of_int b"
    proof -
      have "of_int k + 1 - q = 1 - (q - of_int k)" by simp
      also have "\<dots> = 1 - of_int r / of_int b" unfolding qr ..
      also have "\<dots> = (of_int b - of_int r) / of_int b" using bp by (simp add: diff_divide_distrib)
      finally show ?thesis .
    qed
    have "of_int N / (of_int b :: rat) \<le> (of_int b - of_int r) * (of_int N / of_int b)"
      using r2 Nb by (rule le_mult_ge1)
    with half have "1 / 2 < (of_int b - of_int r) * (of_int N / (of_int b :: rat))"
      by (rule less_le_trans)
    moreover have "(of_int k + 1 - q) * of_int N = (of_int b - of_int r) * (of_int N / (of_int b :: rat))"
      unfolding qr' by simp
    ultimately have hi: "1 / 2 < (of_int k + 1 - q) * of_int N" by simp
    from grid_round [OF Npos lo hi] flq
    have f1: "of_int k < fl q" and f2: "fl q < of_int k + 1" by simp_all
    have "\<lfloor>fl q\<rfloor> = k" using f1 f2 by (intro floor_unique) simp_all
    moreover have "\<lceil>fl q\<rceil> = k + 1" using f1 f2 by (intro ceiling_unique) simp_all
    moreover have "\<lceil>q\<rceil> = k + 1" using lt kq by (intro ceiling_unique) simp_all
    moreover have "\<bar>fl q\<bar> \<le> of_int k + 1"
    proof -
      have "(0::rat) \<le> of_int k" using qpos by (simp add: k_def)
      with f1 have "0 < fl q" by simp
      with f2 show ?thesis by simp
    qed
    ultimately show ?thesis by (simp add: k_def)
  qed
  from both show "\<lfloor>fl (of_int a / of_int b)\<rfloor> = \<lfloor>(of_int a / of_int b :: rat)\<rfloor>"
    and "\<lceil>fl (of_int a / of_int b)\<rceil> = \<lceil>(of_int a / of_int b :: rat)\<rceil>"
    by (simp_all add: q_def)
  have "of_int k + 1 \<le> (of_int a :: rat) + 1" using kq(1) qa by simp
  also have "\<dots> < 2 ^ 53 + 1" using ar by simp
  also have "\<dots> < (2::rat) ^ 1024" by simp
  finally show "\<bar>fl (of_int a / of_int b)\<bar> < 2 ^ 1024"
    using both by (simp add: q_def)
qed

section \<open>The batch planner\<close>

lemma py_truediv_small:
  assumes "0 \<le> a" "a < 2 ^ 53" "0 < b" "b < 2 ^ 53"
  shows "\<exists>x. py_truediv a b = Inr x \<and> round_fn f x = round_fn f (of_int a / of_int b)"
proof (cases "a = 0")
  case True
  with assms(3) show ?thesis by (simp add: py_truediv_def fl_def)
next
  case False
  with assms(1) have a: "0 < a" by simp
  from fl_div_small [OF a assms(2,3,4)] assms(3) show ?thesis
    by (simp add: py_truediv_def Let_def round_fn_def)
qed

lemma round_fn_bounds:
  fixes ns gbs :: int
  assumes "0 < ns" "0 < gbs"
  shows "0 \<le> round_fn f (of_int ns / of_int gbs)" and "round_fn f (of_int ns / of_int gbs) \<le> ns"
proof -
  have g1: "(1::rat) \<le> of_int gbs" using assms(2) by (simp add: int_one_le_iff_zero_less)
  have np: "(0::rat) < of_int ns" using assms(1) by simp
  have q0: "(0::rat) \<le> of_int ns / of_int gbs" using assms by simp
  have q1: "(of_int ns / of_int gbs :: rat) \<le> of_int ns"
    using g1 np by (simp add: pos_divide_le_eq mult_le_cancel_left1)
  show "0 \<le> round_fn f (of_int ns / of_int gbs)"
    using q0 by (simp add: round_fn_def)
  have "\<lfloor>(of_int ns / of_int gbs :: rat)\<rfloor> \<le> ns" using q1 by (simp add: floor_le_iff)
  moreover have "\<lceil>(of_int ns / of_int gbs :: rat)\<rceil> \<le> ns" using q1 by (simp add: ceiling_le_iff)
  ultimately show "round_fn f (of_int ns / of_int gbs) \<le> ns" by (simp add: round_fn_def)
qed


lemma plan_batches_exact:
  assumes nsp: "0 < ns" "ns < 2 ^ 53"
    and bsp: "0 < bs" and wsp: "0 < ws" and gbsp: "bs * ws < 2 ^ 53"
    and wp: "0 \<le> w" "w < 2 ^ 53"
  shows "plan_batches floor_flag ns bs ws w =
     (let gbs = bs * ws;
          nbt = round_fn floor_flag (of_int ns / of_int gbs);
          nw = max 1 w;
          nwb = round_fn floor_flag (of_int nbt / of_int nw)
      in Inr (gbs, nwb, nwb * nw,
              nwb * nw * gbs))"
proof -
  define g where "g = bs * ws"
  have g0: "0 < g" using bsp wsp by (simp add: g_def)
  have g1: "g < 2 ^ 53" using gbsp by (simp add: g_def)
  define nb where "nb = round_fn floor_flag (of_int ns / of_int g)"
  obtain x where x: "py_truediv ns g = Inr x" "round_fn floor_flag x = nb"
    using py_truediv_small [of ns g floor_flag] nsp g0 g1 by (auto simp: nb_def)
  have nb0: "0 \<le> nb" and nb1: "nb \<le> ns"
    using round_fn_bounds [OF nsp(1) g0, of floor_flag] by (simp_all add: nb_def)
  have nb2: "nb < 2 ^ 53" using nb1 nsp(2) by simp
  define m where "m = max 1 w"
  have m0: "0 < m" by (simp add: m_def)
  have m1: "m < 2 ^ 53" using wp(2) by (simp add: m_def)
  obtain y where y: "py_truediv nb m = Inr y"
      "round_fn floor_flag y = round_fn floor_flag (of_int nb / of_int m)"
    using py_truediv_small [OF nb0 nb2 m0 m1, of floor_flag] by auto
  show ?thesis
    unfolding plan_batches_def Let_def g_def [symmetric] x sum.case m_def [symmetric]
      nb_def [symmetric] y
    by simp
qed






lemma plan_batches_fifty: "plan_batches False 50 8 1 1 = Inr (8, 7, 7, 56)"
proof -
  have a: "\<lceil>(25::rat) / 4\<rceil> = 7" by (rule ceiling_unique) simp_all
  have "plan_batches False 50 8 1 1 =
     (let gbs = 8 * 1;
          nbt = round_fn False (of_int 50 / of_int gbs);
          nw = max 1 1;
          nwb = round_fn False (of_int nbt / of_int nw)
      in Inr (gbs, nwb, nwb * nw, nwb * nw * gbs))"
    by (rule plan_batches_exact) simp_all
  then show ?thesis by (simp add: round_fn_def Let_def a)
qed

section \<open>Properties of the webdataset constructors\<close>

lemma py_not_None: "py_not None"
  by (simp add: py_not_def)

lemma get_wds_dataset_Some:
  assumes "get_dataset_size fs s = Inr (found, k)"
  shows "get_wds_dataset fs a (Some s) tns bsz final_stages ep floor_flag =
     (if py_not tns
      then Inl (RuntimeError
        (''Currently, number of dataset samples must be specified for training dataset. ''
         @ ''Please specify via `--train-num-samples` if no dataset length info present.''))
      else if dataset_resampled a \<noteq> Some True \<and> int k < workers a * world_size a
      then Inl (AssertionError ''number of shards must be >= total workers'')
      else (case plan_batches floor_flag (the tns) bsz (world_size a) (workers a) of
              Inl e \<Rightarrow> Inl e
            | Inr (gbs, nwb, nb, nsm) \<Rightarrow>
                Inr \<lparr>dataloader =
                       \<lparr>loader_pipeline =
                          (if dataset_resampled a = Some True
                           then [ResampledShards2 s True (SharedEpoch_init ep)]
                           else [SimpleShardList s,
                                 DetShuffle2 \<lparr>bufsize = SHARD_SHUFFLE_SIZE, initial = SHARD_SHUFFLE_INITIAL,
                                   seed = args_seed a, epoch = Shared (SharedEpoch_init ep)\<rparr>,
                                 SplitByNode, SplitByWorker])
                          @ [TarfileToSamplesNothrow, Shuffle SAMPLE_SHUFFLE_SIZE SAMPLE_SHUFFLE_INITIAL]
                          @ final_stages,
                        loader_with_epoch = nwb, loader_num_workers = workers a,
                        loader_persistent_workers = True,
                        loader_num_batches = nb, loader_num_samples = nsm\<rparr>,
                     data_shared_epoch = SharedEpoch_init ep\<rparr>))"
proof (cases "dataset_resampled a")
  case None
  then show ?thesis
    unfolding get_wds_dataset_def Let_def
    by (cases tns) (auto simp: assms py_not_None not_le split: sum.splits prod.splits)
next
  case (Some b)
  then show ?thesis
    unfolding get_wds_dataset_def Let_def
    by (cases tns; cases b) (auto simp: assms py_not_None not_le split: sum.splits prod.splits)
qed


lemma get_wds_dataset_None:
  "get_wds_dataset fs a None tns bsz final_stages ep floor_flag = Inl (AssertionError [])"
  by (simp add: get_wds_dataset_def)



lemma example_sizes:
  "get_dataset_size (example_files [''d/sizes.json'']) ''d/{0..1}.tar'' = Inr (Some 300, 2)"
  "get_dataset_size (example_files [''d/__len__'']) ''d/{0..1}.tar'' = Inr (Some 7, 2)"
  "get_dataset_size (example_files []) ''d/{0..1}.tar'' = Inr (None, 2)"
  "get_dataset_size (example_files []) ''d/0.tar'' = Inr (None, 1)"
  by (simp_all add: get_dataset_size_def example_files_def Let_def)

subsection \<open>The batch plan\<close>





subsection \<open>The shard-count assertion\<close>

lemma py_truediv_not_assertion: "py_truediv x y \<noteq> Inl (AssertionError m)"
  by (simp add: py_truediv_def Let_def)

lemma plan_batches_not_assertion: "plan_batches f n b ws w \<noteq> Inl (AssertionError m)"
  unfolding plan_batches_def Let_def
  using py_truediv_not_assertion by (auto split: sum.splits)

text \<open>
  C8 (amended).  For each of the three constructors, when the shard pattern is set, its
  size is read and a sample count is configured: the constructor fails with an
  \<open>AssertionError\<close> exactly when resampling is off and the number of expanded shards is
  below \<open>workers * world_size\<close>, with the message "number of shards must be >= total
  workers"; with resampling on nothing is asserted of the shard count.  A returned
  pipeline starts, with resampling on, with \<open>ResampledShards2\<close> followed directly by the
  reader and the sample shuffle, and holds no \<open>detshuffle2\<close>, \<open>split_by_node\<close> or
  \<open>split_by_worker\<close> stage; with resampling off it starts with the shard list, the
  deterministic shuffle and the two partitioning stages.
\<close>

theorem shard_count_assertion:
  assumes c: "(ctor, shards_of, count_of, bs_of) \<in> set constructors"
    and s: "shards_of a = Some s"
    and k: "get_dataset_size fs s = Inr (found, k)"
    and n: "\<not> py_not (count_of a)"
  shows "((\<exists>m. ctor fs a ep floor_flag = Inl (AssertionError m))
            \<longleftrightarrow> dataset_resampled a \<noteq> Some True \<and> int k < workers a * world_size a)
       \<and> (dataset_resampled a \<noteq> Some True \<and> int k < workers a * world_size a \<longrightarrow>
            ctor fs a ep floor_flag
              = Inl (AssertionError ''number of shards must be >= total workers''))
       \<and> (\<forall>di. ctor fs a ep floor_flag = Inr di \<longrightarrow>
            (if dataset_resampled a = Some True
             then take 3 (loader_pipeline (dataloader di))
                    = [ResampledShards2 s True (SharedEpoch_init ep), TarfileToSamplesNothrow,
                       Shuffle SAMPLE_SHUFFLE_SIZE SAMPLE_SHUFFLE_INITIAL]
                  \<and> SplitByNode \<notin> set (loader_pipeline (dataloader di))
                  \<and> SplitByWorker \<notin> set (loader_pipeline (dataloader di))
                  \<and> (\<forall>d. DetShuffle2 d \<notin> set (loader_pipeline (dataloader di)))
             else take 6 (loader_pipeline (dataloader di))
                    = [SimpleShardList s,
                       DetShuffle2 \<lparr>bufsize = SHARD_SHUFFLE_SIZE, initial = SHARD_SHUFFLE_INITIAL,
                                    seed = args_seed a, epoch = Shared (SharedEpoch_init ep)\<rparr>,
                       SplitByNode, SplitByWorker, TarfileToSamplesNothrow,
                       Shuffle SAMPLE_SHUFFLE_SIZE SAMPLE_SHUFFLE_INITIAL]))"
proof -
  from c consider
      (mmc4) "ctor = get_mmc4_dataset" "shards_of = mmc4_shards" "count_of = train_num_samples_mmc4"
    | (laion) "ctor = get_laion_dataset" "shards_of = laion_shards" "count_of = train_num_samples_laion"
    | (cc3m) "ctor = get_cc3m_dataset" "shards_of = cc3m_shards" "count_of = train_num_samples_cc3m"
    by (auto simp: constructors_def)
  then show ?thesis
  proof cases
    case mmc4
    show ?thesis
      using s n unfolding mmc4 get_mmc4_dataset_def
      by (auto simp: get_wds_dataset_Some [OF k] plan_batches_not_assertion split: sum.splits prod.splits if_splits)
  next
    case laion
    show ?thesis
      using s n unfolding laion get_laion_dataset_def
      by (auto simp: get_wds_dataset_Some [OF k] plan_batches_not_assertion split: sum.splits prod.splits if_splits)
  next
    case cc3m
    show ?thesis
      using s n unfolding cc3m get_cc3m_dataset_def
      by (auto simp: get_wds_dataset_Some [OF k] plan_batches_not_assertion split: sum.splits prod.splits if_splits)
  qed
qed


theorem shard_count_assertion_witness:
  "get_mmc4_dataset (example_files []) (example_args (Some ''d/0.tar'') None (Some 1000) 8 2 1) 0 False
     = Inl (AssertionError ''number of shards must be >= total workers'')
   \<and> (\<exists>di. get_laion_dataset (example_files [])
               (example_args (Some ''d/0.tar'') (Some True) (Some 1000) 8 2 1) 0 False = Inr di
          \<and> take 3 (loader_pipeline (dataloader di))
               = [ResampledShards2 ''d/0.tar'' True (SharedEpoch_init 0), TarfileToSamplesNothrow,
                  Shuffle SAMPLE_SHUFFLE_SIZE SAMPLE_SHUFFLE_INITIAL])"
proof -
  let ?fs = "example_files []"
  let ?a = "example_args (Some ''d/0.tar'') None (Some 1000) 8 2 1"
  let ?b = "example_args (Some ''d/0.tar'') (Some True) (Some 1000) 8 2 1"
  have k: "get_dataset_size ?fs ''d/0.tar'' = Inr (None, 1)" by (rule example_sizes)
  have c: "(get_mmc4_dataset, mmc4_shards, train_num_samples_mmc4, batch_size_mmc4) \<in> set constructors"
    by (simp add: constructors_def)
  have s: "mmc4_shards ?a = Some ''d/0.tar''" by (simp add: example_args_def)
  have n: "\<not> py_not (train_num_samples_mmc4 ?a)" by (simp add: example_args_def py_not_def)
  have few: "dataset_resampled ?a \<noteq> Some True \<and> int 1 < workers ?a * world_size ?a"
    by (simp add: example_args_def)
  from shard_count_assertion [OF c s k n, where ep = 0 and floor_flag = False] few
  have r1: "get_mmc4_dataset ?fs ?a 0 False
              = Inl (AssertionError ''number of shards must be >= total workers'')"
    by blast
  have cl: "(get_laion_dataset, laion_shards, train_num_samples_laion, batch_size_laion) \<in> set constructors"
    by (simp add: constructors_def)
  have sl: "laion_shards ?b = Some ''d/0.tar''" by (simp add: example_args_def)
  have nl: "\<not> py_not (train_num_samples_laion ?b)" by (simp add: example_args_def py_not_def)
  have res: "dataset_resampled ?b = Some True" by (simp add: example_args_def)
  have cnt: "train_num_samples_laion ?b = Some 1000" "(0::int) < 1000" "(1000::int) < 2 ^ 53"
    by (simp_all add: example_args_def)
  have bw: "0 < batch_size_laion ?b" "0 < world_size ?b" "batch_size_laion ?b * world_size ?b < 2 ^ 53"
      "0 \<le> workers ?b" "workers ?b < 2 ^ 53"
    by (simp_all add: example_args_def)
  have "get_laion_dataset ?fs ?b 0 False
          = get_wds_dataset ?fs ?b (Some ''d/0.tar'') (Some 1000) 8
              [Select_filter_no_caption_or_no_image, Decode_base64_image,
               ToTuple [''jpg;png;jpeg'', ''txt''], Batched 8 False, MapTuple_preprocess_image_text]
              0 False"
    by (simp add: get_laion_dataset_def example_args_def)
  also have "\<dots> = (case plan_batches False 1000 8 (world_size ?b) (workers ?b) of
                      Inl e \<Rightarrow> Inl e
                    | Inr (gbs, nwb, nb, nsm) \<Rightarrow>
                Inr \<lparr>dataloader =
                       \<lparr>loader_pipeline =
                          [ResampledShards2 ''d/0.tar'' True (SharedEpoch_init 0)]
                          @ [TarfileToSamplesNothrow, Shuffle SAMPLE_SHUFFLE_SIZE SAMPLE_SHUFFLE_INITIAL]
                          @ [Select_filter_no_caption_or_no_image, Decode_base64_image,
               ToTuple [''jpg;png;jpeg'', ''txt''], Batched 8 False, MapTuple_preprocess_image_text],
                        loader_with_epoch = nwb, loader_num_workers = workers ?b,
                        loader_persistent_workers = True,
                        loader_num_batches = nb, loader_num_samples = nsm\<rparr>,
                     data_shared_epoch = SharedEpoch_init 0\<rparr>)"
    unfolding get_wds_dataset_Some [OF k] by (simp add: py_not_def res)
  finally have g: "get_laion_dataset ?fs ?b 0 False = (case plan_batches False 1000 8 (world_size ?b) (workers ?b) of
                      Inl e \<Rightarrow> Inl e
                    | Inr (gbs, nwb, nb, nsm) \<Rightarrow>
                Inr \<lparr>dataloader =
                       \<lparr>loader_pipeline =
                          [ResampledShards2 ''d/0.tar'' True (SharedEpoch_init 0)]
                          @ [TarfileToSamplesNothrow, Shuffle SAMPLE_SHUFFLE_SIZE SAMPLE_SHUFFLE_INITIAL]
                          @ [Select_filter_no_caption_or_no_image, Decode_base64_image,
               ToTuple [''jpg;png;jpeg'', ''txt''], Batched 8 False, MapTuple_preprocess_image_text],
                        loader_with_epoch = nwb, loader_num_workers = workers ?b,
                        loader_persistent_workers = True,
                        loader_num_batches = nb, loader_num_samples = nsm\<rparr>,
                     data_shared_epoch = SharedEpoch_init 0\<rparr>)" .
  have "\<exists>t. plan_batches False 1000 8 (world_size ?b) (workers ?b) = Inr t"
    using plan_batches_exact [OF cnt(2,3), of 8 "world_size ?b" "workers ?b" False]
    by (simp add: example_args_def Let_def)
  then obtain di where di: "get_laion_dataset ?fs ?b 0 False = Inr di"
    unfolding g by (auto split: prod.splits)
  from shard_count_assertion [OF cl sl k nl, where ep = 0 and floor_flag = False] di res
  have "take 3 (loader_pipeline (dataloader di))
               = [ResampledShards2 ''d/0.tar'' True (SharedEpoch_init 0), TarfileToSamplesNothrow,
                  Shuffle SAMPLE_SHUFFLE_SIZE SAMPLE_SHUFFLE_INITIAL]"
    by simp
  with r1 di show ?thesis by blast
qed

text \<open>
  The claim as stated makes the assertion depend on the resampled mode and the shard count
  alone.  With one shard for two workers and resampling off, but no sample count
  configured, the constructor raises \<open>RuntimeError\<close> before it reaches the assertion; and
  with resampling on but no shard pattern, the first statement's \<open>assert\<close> fails.
\<close>

theorem shard_count_assertion_not_reached:
  "get_mmc4_dataset (example_files []) (example_args (Some ''d/0.tar'') None None 8 2 1) 0 False
     = Inl (RuntimeError
        (''Currently, number of dataset samples must be specified for training dataset. ''
         @ ''Please specify via `--train-num-samples` if no dataset length info present.''))
   \<and> get_dataset_size (example_files []) ''d/0.tar'' = Inr (None, 1)
   \<and> workers (example_args (Some ''d/0.tar'') None None 8 2 1)
       * world_size (example_args (Some ''d/0.tar'') None None 8 2 1) = 2
   \<and> get_mmc4_dataset (example_files []) (example_args None (Some True) (Some 1000) 8 2 1) 0 False
     = Inl (AssertionError [])"
proof -
  have k: "get_dataset_size (example_files []) ''d/0.tar'' = Inr (None, 1)" by (rule example_sizes)
  have a: "get_mmc4_dataset (example_files []) (example_args (Some ''d/0.tar'') None None 8 2 1) 0 False
     = Inl (RuntimeError
        (''Currently, number of dataset samples must be specified for training dataset. ''
         @ ''Please specify via `--train-num-samples` if no dataset length info present.''))"
    unfolding get_mmc4_dataset_def
    by (simp add: example_args_def get_wds_dataset_Some [OF k] py_not_def)
  have b: "get_mmc4_dataset (example_files []) (example_args None (Some True) (Some 1000) 8 2 1) 0 False
     = Inl (AssertionError [])"
    unfolding get_mmc4_dataset_def by (simp add: example_args_def get_wds_dataset_None)
  from a b k show ?thesis by (simp add: example_args_def)
qed

subsection \<open>The sample count\<close>

text \<open>
  C1 (the code at the failing input).  \<open>get_dataset_size\<close> reads the sidecar as the claim
  says: with \<open>sizes.json\<close> giving 100 and 200 for the two shards it returns 300.  Each
  constructor then overwrites the count with \<open>None\<close> (line 371, and its copies at lines 463 and 554) before
  testing it, so the count it plans with is always the configured one: with
  \<open>train_num_samples_mmc4 = 50\<close>, batch size 8, one node and one worker the plan is 7
  batches of 56 samples, where 300 samples would give 38 batches of 304; and with no count
  configured each constructor raises \<open>RuntimeError\<close> although \<open>sizes.json\<close> is there.  The
  message of that error reads "Please specify via `--train-num-samples` if no dataset
  length info present".
\<close>

theorem sidecar_count_is_discarded:
  "get_dataset_size (example_files [''d/sizes.json'']) ''d/{0..1}.tar'' = Inr (Some 300, 2)
   \<and> (\<exists>di. get_mmc4_dataset (example_files [''d/sizes.json''])
               (example_args (Some ''d/{0..1}.tar'') None (Some 50) 8 1 1) 0 False = Inr di
          \<and> loader_with_epoch (dataloader di) = 7
          \<and> loader_num_batches (dataloader di) = 7
          \<and> loader_num_samples (dataloader di) = 56)
   \<and> get_mmc4_dataset (example_files [''d/sizes.json''])
        (example_args (Some ''d/{0..1}.tar'') None None 8 1 1) 0 False
      = Inl (RuntimeError
          (''Currently, number of dataset samples must be specified for training dataset. ''
           @ ''Please specify via `--train-num-samples` if no dataset length info present.''))
   \<and> get_laion_dataset (example_files [''d/sizes.json''])
        (example_args (Some ''d/{0..1}.tar'') None None 8 1 1) 0 False
      = Inl (RuntimeError
          (''Currently, number of dataset samples must be specified for training dataset. ''
           @ ''Please specify via `--train-num-samples` if no dataset length info present.''))
   \<and> get_cc3m_dataset (example_files [''d/sizes.json''])
        (example_args (Some ''d/{0..1}.tar'') None None 8 1 1) 0 False
      = Inl (RuntimeError
          (''Currently, number of dataset samples must be specified for training dataset. ''
           @ ''Please specify via `--train-num-samples` if no dataset length info present.''))"
proof -
  have k: "get_dataset_size (example_files [''d/sizes.json'']) ''d/{0..1}.tar'' = Inr (Some 300, 2)"
    by (rule example_sizes)
  have a: "get_mmc4_dataset (example_files [''d/sizes.json''])
               (example_args (Some ''d/{0..1}.tar'') None (Some 50) 8 1 1) 0 False
      = Inr \<lparr>dataloader =
               \<lparr>loader_pipeline =
                  [SimpleShardList ''d/{0..1}.tar'',
                   DetShuffle2 \<lparr>bufsize = SHARD_SHUFFLE_SIZE, initial = SHARD_SHUFFLE_INITIAL,
                     seed = 42, epoch = Shared (SharedEpoch_init 0)\<rparr>,
                   SplitByNode, SplitByWorker, TarfileToSamplesNothrow,
                   Shuffle SAMPLE_SHUFFLE_SIZE SAMPLE_SHUFFLE_INITIAL,
                   ToTuple [''json''], Map_preprocess_interleaved (1 / 4), Batched 8 False],
                loader_with_epoch = 7, loader_num_workers = 1, loader_persistent_workers = True,
                loader_num_batches = 7, loader_num_samples = 56\<rparr>,
             data_shared_epoch = SharedEpoch_init 0\<rparr>"
    unfolding get_mmc4_dataset_def
    by (simp add: example_args_def get_wds_dataset_Some [OF k] py_not_def plan_batches_fifty)
  have b: "get_mmc4_dataset (example_files [''d/sizes.json''])
        (example_args (Some ''d/{0..1}.tar'') None None 8 1 1) 0 False
      = Inl (RuntimeError
          (''Currently, number of dataset samples must be specified for training dataset. ''
           @ ''Please specify via `--train-num-samples` if no dataset length info present.''))"
    unfolding get_mmc4_dataset_def
    by (simp add: example_args_def get_wds_dataset_Some [OF k] py_not_def)
  have c: "get_laion_dataset (example_files [''d/sizes.json''])
        (example_args (Some ''d/{0..1}.tar'') None None 8 1 1) 0 False
      = Inl (RuntimeError
          (''Currently, number of dataset samples must be specified for training dataset. ''
           @ ''Please specify via `--train-num-samples` if no dataset length info present.''))"
    unfolding get_laion_dataset_def
    by (simp add: example_args_def get_wds_dataset_Some [OF k] py_not_def)
  have d: "get_cc3m_dataset (example_files [''d/sizes.json''])
        (example_args (Some ''d/{0..1}.tar'') None None 8 1 1) 0 False
      = Inl (RuntimeError
          (''Currently, number of dataset samples must be specified for training dataset. ''
           @ ''Please specify via `--train-num-samples` if no dataset length info present.''))"
    unfolding get_cc3m_dataset_def
    by (simp add: example_args_def get_wds_dataset_Some [OF k] py_not_def)
  from k a b c d show ?thesis by simp
qed

section \<open>Properties of the MIMIC-IT loaders\<close>


lemma example_build:
  "build_datasets example_MimicitDataset
     (example_mimicit_args ''train_ic'' ''val'' ''train_plain'' ''valp'' 8 2 ''no'')
     = Inr ([''train_ic'', ''train_plain''], [''val'', ''valp''])"
  by (simp add: build_datasets_def example_mimicit_args_def example_MimicitDataset_def
        all_paths_def status_list_def Let_def)


lemma py_truediv_exact:
  assumes "0 \<le> x" "x < 2 ^ 53" "0 < y" "y < 2 ^ 53"
  shows "\<exists>q. py_truediv x y = Inr q \<and> \<lceil>q\<rceil> = \<lceil>(of_int x / of_int y :: rat)\<rceil>
            \<and> \<lfloor>q\<rfloor> = \<lfloor>(of_int x / of_int y :: rat)\<rfloor>"
  using py_truediv_small [OF assms, of False] py_truediv_small [OF assms, of True]
  by (auto simp: round_fn_def)

text \<open>
  The loaders of a call that returns: one per dataset, in order.  A training loader takes
  its own dataset's \<open>collate\<close>; every validation loader takes that of the last training
  dataset.  A sampler is without replacement over the dataset's length when its list has
  one dataset and with replacement over the rounded training count otherwise, and is
  wrapped in the distributed proxy exactly for \<open>DEEPSPEED\<close> and \<open>MULTI_GPU\<close>.
\<close>

lemma get_mimicit_dataset_loaders:
  assumes "get_mimicit_dataset MimicitDataset ds_len a floor_flag = Inr (dataloaders, val_dataloaders)"
  shows "\<exists>unified_datasets val_unified_datasets num_samples.
           build_datasets MimicitDataset a = Inr (unified_datasets, val_unified_datasets)
           \<and> unified_datasets \<noteq> [] \<and> val_unified_datasets \<noteq> []
           \<and> map dl_dataset dataloaders = unified_datasets
           \<and> map dl_dataset val_dataloaders = val_unified_datasets
           \<and> (\<forall>dl \<in> set dataloaders.
                 dl_collate_fn dl = dl_dataset dl
                 \<and> dl_sampler dl =
                     (let sampler = (if length unified_datasets = 1
                                     then RandomSampler (dl_dataset dl) False (ds_len (dl_dataset dl))
                                     else RandomSampler (dl_dataset dl) True num_samples)
                      in if distributed_type a = ''DEEPSPEED'' \<or> distributed_type a = ''MULTI_GPU''
                         then DistributedProxySampler sampler (world_size a) (rank a) else sampler))
           \<and> (\<forall>dl \<in> set val_dataloaders.
                 dl_collate_fn dl = last unified_datasets
                 \<and> dl_sampler dl =
                     (let sampler = (if length val_unified_datasets = 1
                                     then RandomSampler (dl_dataset dl) False (ds_len (dl_dataset dl))
                                     else RandomSampler (dl_dataset dl) True num_samples)
                      in if distributed_type a = ''DEEPSPEED'' \<or> distributed_type a = ''MULTI_GPU''
                         then DistributedProxySampler sampler (world_size a) (rank a) else sampler))"
proof -
  from assms obtain uds vds where b: "build_datasets MimicitDataset a = Inr (uds, vds)"
    unfolding get_mimicit_dataset_def by (auto split: sum.splits)
  from assms have ne: "uds \<noteq> []" "vds \<noteq> []"
    unfolding get_mimicit_dataset_def b sum.case prod.case
    by (auto simp: py_max_def split: sum.splits if_splits)
  from assms show ?thesis
    unfolding get_mimicit_dataset_def b sum.case prod.case Let_def
    apply (simp split: sum.splits if_splits)
     apply (auto simp: comp_def ne)
    done
qed

text \<open>
  C9 (the code at the failing input).  Two training datasets (\<open>train_ic\<close>, \<open>train_plain\<close>)
  and two validation datasets (\<open>val\<close>, \<open>valp\<close>), 8 training and 2 validation samples
  configured, batch size 2 on one node.  Each training loader takes its own dataset's
  \<open>collate\<close> and a with-replacement sampler of the rounded training count 8.  Each
  validation loader takes \<open>unified_dataset.collate\<close>, the variable the training loop has
  left at the last training dataset \<open>train_plain\<close> (line 795), and its sampler draws the
  training count 8 (line 785), not the rounded validation count 2 that line 754 computes.
\<close>

theorem validation_loader_takes_training_collate:
  "get_mimicit_dataset example_MimicitDataset example_len
     (example_mimicit_args ''train_ic'' ''val'' ''train_plain'' ''valp'' 8 2 ''no'') False
   = Inr ([\<lparr>dl_dataset = ''train_ic'', dl_sampler = RandomSampler ''train_ic'' True 8,
             dl_batch_size = 2, dl_num_workers = 1, dl_pin_memory = True, dl_drop_last = True,
             dl_collate_fn = ''train_ic''\<rparr>,
           \<lparr>dl_dataset = ''train_plain'', dl_sampler = RandomSampler ''train_plain'' True 8,
             dl_batch_size = 2, dl_num_workers = 1, dl_pin_memory = True, dl_drop_last = True,
             dl_collate_fn = ''train_plain''\<rparr>],
          [\<lparr>dl_dataset = ''val'', dl_sampler = RandomSampler ''val'' True 8,
             dl_batch_size = 2, dl_num_workers = 1, dl_pin_memory = True, dl_drop_last = True,
             dl_collate_fn = ''train_plain''\<rparr>,
           \<lparr>dl_dataset = ''valp'', dl_sampler = RandomSampler ''valp'' True 8,
             dl_batch_size = 2, dl_num_workers = 1, dl_pin_memory = True, dl_drop_last = True,
             dl_collate_fn = ''train_plain''\<rparr>])"
proof -
  let ?a = "example_mimicit_args ''train_ic'' ''val'' ''train_plain'' ''valp'' 8 2 ''no''"
  obtain q where q: "py_truediv 8 2 = Inr q" "\<lceil>q\<rceil> = 4"
    using py_truediv_exact [of 8 2] by auto
  obtain r where r: "py_truediv 2 2 = Inr r" "\<lceil>r\<rceil> = 1"
    using py_truediv_exact [of 2 2] by auto
  have f: "train_num_samples ?a = 8" "val_num_samples ?a = 2" "batch_size ?a = 2"
      "world_size ?a = 1" "workers ?a = 1" "rank ?a = 0" "distributed_type ?a = ''no''"
    by (simp_all add: example_mimicit_args_def)
  show ?thesis
    unfolding get_mimicit_dataset_def example_build f
    by (simp add: py_max_def example_len_def number_truediv_def q r round_fn_def Let_def)
qed

subsection \<open>No validation datasets\<close>






end
